theory Spec2Isabelle
  imports Complex_Main "HOL-Library.Log_Nat"
begin

section \<open>Raster data\<close>

text \<open>
  A pixel is one RGBA quadruple (8 bits per channel in the browser; the channels are
  kept as naturals). A bitmap is what both a canvas backing store and an
  \<^verbatim>\<open>ImageData\<close> object hold: a width, a height and the row-major pixel array.
\<close>

datatype pixel = RGBA nat nat nat nat

definition white :: pixel where
  "white = RGBA 255 255 255 255"

definition transparent :: pixel where
  "transparent = RGBA 0 0 0 0"

record bitmap =
  width :: nat
  height :: nat
  data :: "pixel list"

definition solid :: "nat \<Rightarrow> nat \<Rightarrow> pixel \<Rightarrow> bitmap" where
  "solid w h p = \<lparr>width = w, height = h, data = replicate (w * h) p\<rparr>"

definition pixel_at :: "bitmap \<Rightarrow> nat \<Rightarrow> nat \<Rightarrow> pixel" where
  "pixel_at b x y = data b ! (y * width b + x)"

text \<open>\<^verbatim>\<open>fillStyle = '#ffffff'; fillRect(0, 0, canvas.width, canvas.height)\<close> at global alpha 1.\<close>

definition fillWhite :: "bitmap \<Rightarrow> bitmap" where
  "fillWhite b = solid (width b) (height b) white"

text \<open>\<^verbatim>\<open>clearRect(0, 0, canvas.width, canvas.height)\<close>.\<close>

definition clearAll :: "bitmap \<Rightarrow> bitmap" where
  "clearAll b = solid (width b) (height b) transparent"

text \<open>A bitmap without pixels: one of its sides is 0.\<close>

definition zeroSided :: "bitmap \<Rightarrow> bool" where
  "zeroSided b \<longleftrightarrow> width b = 0 \<or> height b = 0"

section \<open>Tool and drawing-context state\<close>

datatype tool_mode = Brush | Eraser
datatype tool_shape = Round | Square
datatype line_cap = CapButt | CapRound | CapSquare
datatype line_join = JoinMiter | JoinRound | JoinBevel

text \<open>
  \<^verbatim>\<open>interface DrawingTool\<close>. A JavaScript number is a rational here; where the
  component computes with numbers (the aspect-fit rectangle), every operation is
  followed by the rounding to a double, which is a parameter (\<open>fl\<close> below).
\<close>

record DrawingTool =
  color :: string
  tool_width :: rat
  mode :: tool_mode
  shape :: tool_shape
  opacity :: rat

text \<open>
  The part of the scratch canvas's \<^verbatim>\<open>CanvasRenderingContext2D\<close> that the component
  writes: the current path (one subpath, its vertices in order) and the stroke styles.
\<close>

record context2d =
  path :: "(rat \<times> rat) list"
  strokeStyle :: string
  lineWidth :: rat
  lineCap :: line_cap
  lineJoin :: line_join

text \<open>The state a context has when it is created, and again after its canvas is resized.\<close>

definition defaultCtx :: context2d where
  "defaultCtx = \<lparr>path = [], strokeStyle = ''#000000'', lineWidth = 1,
                 lineCap = CapButt, lineJoin = JoinMiter\<rparr>"

definition capOf :: "tool_shape \<Rightarrow> line_cap" where
  "capOf sh = (case sh of Round \<Rightarrow> CapRound | Square \<Rightarrow> CapSquare)"

definition joinOf :: "tool_shape \<Rightarrow> line_join" where
  "joinOf sh = (if sh = Round then JoinRound else JoinBevel)"

section \<open>The browser\<close>

text \<open>
  The component draws and computes through browser primitives whose arithmetic is not
  part of the repository. They are parameters of every operation; drawing changes the
  pixels of the target bitmap and never its size, so the two drawing primitives return
  the target's new pixel array:
  \<^item> \<open>drawPixels api src dx dy dw dh a dst\<close>: the pixels of \<open>dst\<close> after
    \<^verbatim>\<open>ctx.drawImage(src, dx, dy, dw, dh)\<close> with \<^verbatim>\<open>ctx.globalAlpha\<close> assigned \<open>a\<close>;
  \<^item> \<open>strokePixels api c dst\<close>: the pixels of \<open>dst\<close> after \<^verbatim>\<open>ctx.stroke()\<close> in
    context state \<open>c\<close>;
  \<^item> \<open>toDataURL api b\<close>: the PNG data URL of \<open>b\<close>;
  \<^item> \<open>fl api x\<close>: the double nearest to \<open>x\<close>, the value of an arithmetic operation
    whose exact result is \<open>x\<close>.

  Reading and writing whole bitmaps (\<^verbatim>\<open>getImageData\<close>, \<^verbatim>\<open>putImageData\<close>) are plain
  copies, which is exact for the opaque pixels the committed canvas holds.

  Two calls raise in a browser, and the handlers below have a branch for each:
  \<^verbatim>\<open>drawImage\<close> from a canvas with a side of length 0 (\<open>InvalidStateError\<close>) and
  \<^verbatim>\<open>getImageData\<close> of a rectangle with a side of length 0 (\<open>IndexSizeError\<close>).
  Drawing an image element with a zero side, or into an empty rectangle, paints nothing.
\<close>

datatype dom_exception = IndexSizeError | InvalidStateError

record gfx =
  drawPixels :: "bitmap \<Rightarrow> rat \<Rightarrow> rat \<Rightarrow> rat \<Rightarrow> rat \<Rightarrow> rat \<Rightarrow> bitmap \<Rightarrow> pixel list"
  strokePixels :: "context2d \<Rightarrow> bitmap \<Rightarrow> pixel list"
  toDataURL :: "bitmap \<Rightarrow> string"
  fl :: "rat \<Rightarrow> rat"

definition drawImage ::
  "gfx \<Rightarrow> bitmap \<Rightarrow> rat \<Rightarrow> rat \<Rightarrow> rat \<Rightarrow> rat \<Rightarrow> rat \<Rightarrow> bitmap \<Rightarrow> bitmap" where
  "drawImage api src dx dy dw dh a dst = dst\<lparr>data := drawPixels api src dx dy dw dh a dst\<rparr>"

definition stroke :: "gfx \<Rightarrow> context2d \<Rightarrow> bitmap \<Rightarrow> bitmap" where
  "stroke api c dst = dst\<lparr>data := strokePixels api c dst\<rparr>"

text \<open>The three-argument form \<^verbatim>\<open>drawImage(src, 0, 0)\<close> draws at the source's own size.\<close>

definition drawImage0 :: "gfx \<Rightarrow> bitmap \<Rightarrow> rat \<Rightarrow> bitmap \<Rightarrow> bitmap" where
  "drawImage0 api src a dst =
     drawImage api src 0 0 (of_nat (width src)) (of_nat (height src)) a dst"

section \<open>Component state\<close>

record engine =
  mainCanvas :: bitmap
  tempCanvas :: bitmap
  tCtx :: context2d
  isDrawing :: bool
  historyRef :: "bitmap list"
  historyStep :: int
  tool :: DrawingTool

text \<open>
  What a handler leaves: the new state, or the exception it raised together with the
  state as it was when the exception left the handler. Nothing in the component catches
  an exception, and the state mutated before it stays mutated.
\<close>

datatype outcome = Done engine | Threw dom_exception engine

fun after :: "outcome \<Rightarrow> engine" where
  "after (Done s) = s"
| "after (Threw e s) = s"

fun completed :: "outcome \<Rightarrow> bool" where
  "completed (Done s) = True"
| "completed (Threw e s) = False"

section \<open>History\<close>

text \<open>\<^verbatim>\<open>xs.slice(0, e)\<close>: a negative end counts from the end of the array.\<close>

definition js_slice0 :: "'a list \<Rightarrow> int \<Rightarrow> 'a list" where
  "js_slice0 xs e =
     (if e < 0 then take (nat (int (length xs) + e)) xs else take (nat e) xs)"

text \<open>
  \<^verbatim>\<open>saveToHistory\<close>: the future is discarded first; \<^verbatim>\<open>getImageData\<close> then raises on
  a canvas with a zero side, before anything is pushed.
\<close>

definition saveToHistory :: "engine \<Rightarrow> outcome" where
  "saveToHistory s =
     (let h1 = (if historyStep s < int (length (historyRef s)) - 1
                then js_slice0 (historyRef s) (historyStep s + 1)
                else historyRef s)
      in if zeroSided (mainCanvas s) then Threw IndexSizeError (s\<lparr>historyRef := h1\<rparr>)
         else (let imageData = mainCanvas s;
                   h2 = h1 @ [imageData];
                   st = int (length h2) - 1
               in if length h2 > 50
                  then Done (s\<lparr>historyRef := tl h2, historyStep := st - 1\<rparr>)
                  else Done (s\<lparr>historyRef := h2, historyStep := st\<rparr>)))"

text \<open>
  \<^verbatim>\<open>applyHistoryItem\<close>: on a size mismatch the item is put on a canvas of its own
  size, the committed canvas is filled white and the item's canvas is drawn over it,
  which raises if that canvas has a zero side.
\<close>

definition applyHistoryItem :: "gfx \<Rightarrow> bitmap \<Rightarrow> engine \<Rightarrow> outcome" where
  "applyHistoryItem api imageData s =
     (if width imageData = width (mainCanvas s) \<and> height imageData = height (mainCanvas s)
      then Done (s\<lparr>mainCanvas := imageData\<rparr>)
      else if zeroSided imageData
      then Threw InvalidStateError (s\<lparr>mainCanvas := fillWhite (mainCanvas s)\<rparr>)
      else Done (s\<lparr>mainCanvas :=
                    drawImage api imageData 0 0
                      (of_nat (width (mainCanvas s))) (of_nat (height (mainCanvas s))) 1
                      (fillWhite (mainCanvas s))\<rparr>))"

definition undo :: "gfx \<Rightarrow> engine \<Rightarrow> outcome" where
  "undo api s =
     (if historyStep s > 0
      then (let s1 = s\<lparr>historyStep := historyStep s - 1\<rparr>;
                i = nat (historyStep s1)
            in if i < length (historyRef s1)
               then applyHistoryItem api (historyRef s1 ! i) s1
               else Done s1)
      else Done s)"

definition redo :: "gfx \<Rightarrow> engine \<Rightarrow> outcome" where
  "redo api s =
     (if historyStep s < int (length (historyRef s)) - 1
      then (let s1 = s\<lparr>historyStep := historyStep s + 1\<rparr>
            in if 0 \<le> historyStep s1 \<and> nat (historyStep s1) < length (historyRef s1)
               then applyHistoryItem api (historyRef s1 ! nat (historyStep s1)) s1
               else Done s1)
      else Done s)"

section \<open>Resize\<close>

text \<open>Assigning a number to \<^verbatim>\<open>canvas.width\<close> keeps its integer part.\<close>

definition toDim :: "rat \<Rightarrow> nat" where
  "toDim x = nat \<lfloor>x\<rfloor>"

text \<open>
  \<^verbatim>\<open>handleResize\<close>, with the container's measured size as arguments. The snapshot is
  taken by drawing the committed canvas, which raises if that canvas has a zero side:
  nothing has been resized by then. Resizing a canvas empties its bitmap and puts its
  context back into the default state.
\<close>

definition handleResize :: "gfx \<Rightarrow> rat \<Rightarrow> rat \<Rightarrow> engine \<Rightarrow> outcome" where
  "handleResize api w h s =
     (if of_nat (width (mainCanvas s)) = w \<and> of_nat (height (mainCanvas s)) = h then Done s
      else if zeroSided (mainCanvas s) then Threw InvalidStateError s
      else
        (let snapshot = drawImage0 api (mainCanvas s) 1
                          (solid (width (mainCanvas s)) (height (mainCanvas s)) transparent);
             blank = solid (toDim w) (toDim h)
         in Done (s\<lparr>mainCanvas := drawImage api snapshot 0 0 w h 1 (blank white),
                     tempCanvas := blank transparent,
                     tCtx := defaultCtx\<lparr>lineCap := capOf (shape (tool s)),
                                        lineJoin := joinOf (shape (tool s))\<rparr>\<rparr>)))"

section \<open>Imperative handle\<close>

definition exportImage :: "gfx \<Rightarrow> engine \<Rightarrow> string \<times> engine" where
  "exportImage api s = (toDataURL api (mainCanvas s), s)"

definition clearCanvas :: "engine \<Rightarrow> outcome" where
  "clearCanvas s =
     (case saveToHistory (s\<lparr>mainCanvas := fillWhite (mainCanvas s)\<rparr>) of
        Threw e s1 \<Rightarrow> Threw e s1
      | Done s1 \<Rightarrow> Done (s1\<lparr>tempCanvas := clearAll (tempCanvas s1)\<rparr>))"

text \<open>
  The aspect-fit rectangle \<open>(offsetX, offsetY, drawWidth, drawHeight)\<close> of
  \<^verbatim>\<open>img.onload\<close>, for a canvas of \<open>cw \<times> ch\<close> and an image of \<open>iw \<times> ih\<close> pixels,
  both of positive height (the divisions are JavaScript's only then). The sizes are
  integers, which are doubles; each quotient, product and difference is rounded.
\<close>

definition aspectFit :: "gfx \<Rightarrow> nat \<Rightarrow> nat \<Rightarrow> nat \<Rightarrow> nat \<Rightarrow> rat \<times> rat \<times> rat \<times> rat" where
  "aspectFit api cw ch iw ih =
     (let canvasWidth = (of_nat cw :: rat);
          canvasHeight = (of_nat ch :: rat);
          imgRatio = fl api (of_nat iw / of_nat ih);
          canvasRatio = fl api (canvasWidth / canvasHeight)
      in if imgRatio > canvasRatio
         then (let drawHeight = fl api (canvasWidth / imgRatio)
               in (0, fl api (fl api (canvasHeight - drawHeight) / 2), canvasWidth, drawHeight))
         else (let drawWidth = fl api (canvasHeight * imgRatio)
               in (fl api (fl api (canvasWidth - drawWidth) / 2), 0, drawWidth, canvasHeight)))"

text \<open>
  \<^verbatim>\<open>loadImage\<close>, with the outcome of decoding as argument: \<open>None\<close> when the image
  fails to decode (only \<^verbatim>\<open>onload\<close> has a handler, so nothing runs), otherwise the decoded
  bitmap. An image with a zero side is not painted, and neither is anything on a canvas
  of height 0 (the ratios are not finite numbers in JavaScript then, or the rectangle
  is empty).
\<close>

definition loadImage :: "gfx \<Rightarrow> bitmap option \<Rightarrow> engine \<Rightarrow> outcome" where
  "loadImage api decoded s =
     (case decoded of
        None \<Rightarrow> Done s
      | Some img \<Rightarrow>
          (let cleared = fillWhite (mainCanvas s);
               (offsetX, offsetY, drawWidth, drawHeight) =
                  aspectFit api (width cleared) (height cleared) (width img) (height img);
               drawn = (if zeroSided img \<or> height cleared = 0 then cleared
                        else drawImage api img offsetX offsetY drawWidth drawHeight 1 cleared)
           in saveToHistory (s\<lparr>mainCanvas := drawn\<rparr>)))"

section \<open>Pointer handlers\<close>

record pointer =
  clientX :: rat
  clientY :: rat
  rectLeft :: rat
  rectTop :: rat

definition getCoordinates :: "pointer \<Rightarrow> rat \<times> rat" where
  "getCoordinates e = (clientX e - rectLeft e, clientY e - rectTop e)"

definition startDrawing :: "gfx \<Rightarrow> pointer \<Rightarrow> engine \<Rightarrow> engine" where
  "startDrawing api e s =
     (let (offsetX, offsetY) = getCoordinates e;
          c = (tCtx s)\<lparr>path := [(offsetX, offsetY), (offsetX + 1 / 10, offsetY)],
                       strokeStyle := (if mode (tool s) = Eraser then ''#ffffff''
                                       else color (tool s)),
                       lineWidth := tool_width (tool s)\<rparr>
      in s\<lparr>isDrawing := True, tCtx := c, tempCanvas := stroke api c (tempCanvas s)\<rparr>)"

definition draw :: "gfx \<Rightarrow> pointer \<Rightarrow> engine \<Rightarrow> engine" where
  "draw api e s =
     (if \<not> isDrawing s then s
      else (let c = (tCtx s)\<lparr>path := path (tCtx s) @ [getCoordinates e]\<rparr>
            in s\<lparr>tCtx := c, tempCanvas := stroke api c (tempCanvas s)\<rparr>))"

text \<open>
  \<^verbatim>\<open>stopDrawing\<close>: \<^verbatim>\<open>setIsDrawing(false)\<close> comes first and stays; drawing the scratch
  canvas raises if it has a zero side, before anything is composited or recorded. (The
  committed context then stays saved with the stroke's alpha; the canvases have a zero
  side at that point and keep it, see \<open>zeroSided_stays\<close>, so no pixel ever shows it.)
\<close>

definition stopDrawing :: "gfx \<Rightarrow> engine \<Rightarrow> outcome" where
  "stopDrawing api s =
     (if \<not> isDrawing s then Done s
      else if zeroSided (tempCanvas s) then Threw InvalidStateError (s\<lparr>isDrawing := False\<rparr>)
      else
        (let globalAlpha = (if mode (tool s) = Eraser then 1 else opacity (tool s))
         in case saveToHistory
                   (s\<lparr>isDrawing := False,
                      mainCanvas := drawImage0 api (tempCanvas s) globalAlpha (mainCanvas s)\<rparr>) of
              Threw e s1 \<Rightarrow> Threw e s1
            | Done s1 \<Rightarrow> Done (s1\<lparr>tempCanvas := clearAll (tempCanvas s1),
                                   tCtx := (tCtx s1)\<lparr>path := []\<rparr>\<rparr>)))"

section \<open>Mounting, tool changes, and runs of events\<close>

text \<open>
  The state before the effects run: two default-sized (300 by 150), empty canvases,
  no history. Mounting runs the three effects in order: initialisation, the first
  \<^verbatim>\<open>handleResize\<close> (with the container's size), and the tool effect. A run goes on
  from the state a handler leaves, whether it raised or not (an exception that leaves
  an effect makes React unmount the component; the state is kept here, which can only
  add reachable states).
\<close>

definition unmounted :: "DrawingTool \<Rightarrow> engine" where
  "unmounted t =
     \<lparr>mainCanvas = solid 300 150 transparent, tempCanvas = solid 300 150 transparent,
      tCtx = defaultCtx, isDrawing = False, historyRef = [], historyStep = - 1, tool = t\<rparr>"

definition initCanvases :: "engine \<Rightarrow> engine" where
  "initCanvases s =
     (let s1 = s\<lparr>mainCanvas := fillWhite (mainCanvas s),
                 tCtx := (tCtx s)\<lparr>lineCap := CapRound, lineJoin := JoinRound\<rparr>\<rparr>
      in if length (historyRef s1) = 0 then after (saveToHistory s1) else s1)"

definition toolEffect :: "engine \<Rightarrow> engine" where
  "toolEffect s =
     s\<lparr>tCtx := (tCtx s)\<lparr>lineCap := capOf (shape (tool s)),
                         lineJoin := joinOf (shape (tool s))\<rparr>\<rparr>"

definition mount :: "gfx \<Rightarrow> rat \<Rightarrow> rat \<Rightarrow> DrawingTool \<Rightarrow> engine" where
  "mount api w h t = toolEffect (after (handleResize api w h (initCanvases (unmounted t))))"

text \<open>
  A new \<^verbatim>\<open>tool\<close> prop: the resize effect depends on \<^verbatim>\<open>tool.shape\<close> and calls
  \<^verbatim>\<open>handleResize\<close> again when the shape changed (\<open>w\<close>, \<open>h\<close>: the container's size then);
  the tool effect runs on every change.
\<close>

definition setTool :: "gfx \<Rightarrow> DrawingTool \<Rightarrow> rat \<Rightarrow> rat \<Rightarrow> engine \<Rightarrow> engine" where
  "setTool api t w h s =
     (let s1 = s\<lparr>tool := t\<rparr>;
          s2 = (if shape t \<noteq> shape (tool s) then after (handleResize api w h s1) else s1)
      in toolEffect s2)"

datatype event =
    PointerDown pointer
  | PointerMove pointer
  | PointerUp
  | Undo
  | Redo
  | Clear
  | Export
  | Load "bitmap option"
  | Resize rat rat
  | SetTool DrawingTool rat rat

fun step :: "gfx \<Rightarrow> engine \<Rightarrow> event \<Rightarrow> engine" where
  "step api s (PointerDown e) = startDrawing api e s"
| "step api s (PointerMove e) = draw api e s"
| "step api s PointerUp = after (stopDrawing api s)"
| "step api s Undo = after (undo api s)"
| "step api s Redo = after (redo api s)"
| "step api s Clear = after (clearCanvas s)"
| "step api s Export = snd (exportImage api s)"
| "step api s (Load d) = after (loadImage api d s)"
| "step api s (Resize w h) = after (handleResize api w h s)"
| "step api s (SetTool t w h) = setTool api t w h s"

definition run :: "gfx \<Rightarrow> event list \<Rightarrow> engine \<Rightarrow> engine" where
  "run api es s = foldl (step api) s es"

text \<open>One completed stroke: pointer-down, any number of pointer-moves, pointer-up.\<close>

definition penDown :: "gfx \<Rightarrow> pointer \<times> pointer list \<Rightarrow> engine \<Rightarrow> engine" where
  "penDown api st s = foldl (\<lambda>s' e. draw api e s') (startDrawing api (fst st) s) (snd st)"

definition strokeOnce :: "gfx \<Rightarrow> pointer \<times> pointer list \<Rightarrow> engine \<Rightarrow> outcome" where
  "strokeOnce api st s = stopDrawing api (penDown api st s)"

definition strokes :: "gfx \<Rightarrow> (pointer \<times> pointer list) list \<Rightarrow> engine \<Rightarrow> engine" where
  "strokes api sts s = foldl (\<lambda>s' st. after (strokeOnce api st s')) s sts"

section \<open>Predicates of the statements\<close>

definition sameSize :: "bitmap \<Rightarrow> bitmap \<Rightarrow> bool" where
  "sameSize a b \<longleftrightarrow> width a = width b \<and> height a = height b"

text \<open>Both canvases have pixels: the surface a stroke can be drawn and recorded on.\<close>

definition surfaceOk :: "engine \<Rightarrow> bool" where
  "surfaceOk s \<longleftrightarrow> \<not> zeroSided (mainCanvas s) \<and> \<not> zeroSided (tempCanvas s)"

text \<open>
  The committed bitmap is in step with the history when restoring the entry at the
  cursor would leave it as it is. Every operation that records, undoes or redoes
  establishes this; resizing rewrites the committed bitmap without touching the entries.
\<close>

definition inSync :: "gfx \<Rightarrow> engine \<Rightarrow> bool" where
  "inSync api s \<longleftrightarrow>
     mainCanvas s =
       mainCanvas (after (applyHistoryItem api (historyRef s ! nat (historyStep s)) s))"


text \<open>
  What drawing an image may touch: a pixel whose unit square lies outside the
  destination rectangle keeps its value. This is a property of the browser's
  \<^verbatim>\<open>drawImage\<close>, assumed where a statement is about individual pixels.
\<close>

definition clipsToRect :: "gfx \<Rightarrow> bool" where
  "clipsToRect api \<longleftrightarrow>
     (\<forall>src dx dy dw dh a dst x y.
        x < width dst \<longrightarrow> y < height dst \<longrightarrow>
        (of_nat x + 1 \<le> dx \<or> dx + dw \<le> of_nat x \<or> of_nat y + 1 \<le> dy \<or> dy + dh \<le> of_nat y) \<longrightarrow>
        pixel_at (drawImage api src dx dy dw dh a dst) x y = pixel_at dst x y)"

text \<open>
  The rounding of the browser's arithmetic has relative error at most \<open>u\<close>. For
  doubles in the normal range \<open>u\<close> is \<open>2\<^sup>-\<^sup>5\<^sup>3\<close>.
\<close>

definition roundsWithin :: "gfx \<Rightarrow> rat \<Rightarrow> bool" where
  "roundsWithin api u \<longleftrightarrow> 0 \<le> u \<and> u < 1 \<and> (\<forall>x. \<bar>fl api x - x\<bar> \<le> u * \<bar>x\<bar>)"

text \<open>
  The history invariant: the cursor indexes an entry and at most 50 entries are kept.
  Every entry has pixels, as every \<^verbatim>\<open>ImageData\<close> has.
\<close>

definition historyOk :: "engine \<Rightarrow> bool" where
  "historyOk s \<longleftrightarrow> 0 \<le> historyStep s \<and> historyStep s < int (length (historyRef s))
            \<and> length (historyRef s) \<le> 50"

definition entriesOk :: "engine \<Rightarrow> bool" where
  "entriesOk s \<longleftrightarrow> list_all (\<lambda>b. \<not> zeroSided b) (historyRef s)"

text \<open>
  What recording does to the entry sequence \<open>hs\<close> and the cursor \<open>c\<close> when the
  committed bitmap is \<open>m\<close>: the history part of a \<^verbatim>\<open>saveToHistory\<close> that pushes.
\<close>

definition recorded :: "bitmap list \<Rightarrow> int \<Rightarrow> bitmap \<Rightarrow> bitmap list \<times> int" where
  "recorded hs c m =
     (let h1 = (if c < int (length hs) - 1 then js_slice0 hs (c + 1) else hs);
          h2 = h1 @ [m]
      in if length h2 > 50 then (tl h2, int (length h2) - 2) else (h2, int (length h2) - 1))"

section \<open>A reference rasteriser\<close>

text \<open>
  One concrete choice of the primitives, used for the examples: nearest-neighbour
  sampling at pixel centres with source-over blending, a stroke that paints the pixels
  under the path's vertices, a byte dump for the data URL, and rounding to the nearest
  binary64 number, ties to even (for values in the normal range, which all values
  computed from canvas and image sizes are).
\<close>

definition pow2 :: "int \<Rightarrow> rat" where
  "pow2 k = (if 0 \<le> k then 2 ^ nat k else 1 / 2 ^ nat (- k))"

text \<open>The exponent \<open>e\<close> with \<open>2\<^sup>e \<le> x < 2\<^sup>e\<^sup>+\<^sup>1\<close>, for positive \<open>x\<close>.\<close>

definition ilog2 :: "rat \<Rightarrow> int" where
  "ilog2 x = (if 1 \<le> x then int (floorlog 2 (nat \<lfloor>x\<rfloor>)) - 1
              else - int (floorlog 2 (nat \<lceil>1 / x\<rceil> - 1)))"

definition roundEven :: "rat \<Rightarrow> int" where
  "roundEven y =
     (let f = \<lfloor>y\<rfloor>; d = y - of_int f
      in if d < 1 / 2 then f else if 1 / 2 < d then f + 1 else if even f then f else f + 1)"

definition toDouble :: "rat \<Rightarrow> rat" where
  "toDouble x =
     (if x = 0 then 0
      else (let ulp = pow2 (ilog2 \<bar>x\<bar> - 52)
            in sgn x * of_int (roundEven (\<bar>x\<bar> / ulp)) * ulp))"

definition chan :: "rat \<Rightarrow> nat" where
  "chan x = nat \<lfloor>x + 1 / 2\<rfloor>"

fun blend :: "rat \<Rightarrow> pixel \<Rightarrow> pixel \<Rightarrow> pixel" where
  "blend a (RGBA sr sg sb sa) (RGBA dr dg db da) =
     (let as = a * of_nat sa / 255;
          ad = of_nat da / 255;
          ao = as + ad * (1 - as);
          mix = (\<lambda>s d. if ao = 0 then 0
                       else chan ((of_nat s * as + of_nat d * ad * (1 - as)) / ao))
      in RGBA (mix sr dr) (mix sg dg) (mix sb db) (chan (255 * ao)))"

definition sampleIndex :: "nat \<Rightarrow> rat \<Rightarrow> rat \<Rightarrow> rat \<Rightarrow> nat" where
  "sampleIndex n c d0 dn = min (n - 1) (nat \<lfloor>(c - d0) * of_nat n / dn\<rfloor>)"

definition refDrawPixels ::
  "bitmap \<Rightarrow> rat \<Rightarrow> rat \<Rightarrow> rat \<Rightarrow> rat \<Rightarrow> rat \<Rightarrow> bitmap \<Rightarrow> pixel list" where
  "refDrawPixels src dx dy dw dh a dst =
     map (\<lambda>i. let cx = of_nat (i mod width dst) + 1 / 2;
                   cy = of_nat (i div width dst) + 1 / 2
               in if 0 < width src \<and> 0 < height src \<and>
                     dx \<le> cx \<and> cx < dx + dw \<and> dy \<le> cy \<and> cy < dy + dh
                  then blend a (pixel_at src (sampleIndex (width src) cx dx dw)
                                            (sampleIndex (height src) cy dy dh))
                               (data dst ! i)
                  else data dst ! i)
         [0 ..< width dst * height dst]"

definition hexDigit :: "char \<Rightarrow> nat" where
  "hexDigit c =
     (let n = (of_char c :: nat)
      in if 48 \<le> n \<and> n \<le> 57 then n - 48
         else if 97 \<le> n \<and> n \<le> 102 then n - 87
         else if 65 \<le> n \<and> n \<le> 70 then n - 55
         else 0)"

definition parseColor :: "string \<Rightarrow> pixel" where
  "parseColor s =
     (case s of
        [h, r1, r2, g1, g2, b1, b2] \<Rightarrow>
          RGBA (16 * hexDigit r1 + hexDigit r2) (16 * hexDigit g1 + hexDigit g2)
               (16 * hexDigit b1 + hexDigit b2) 255
      | _ \<Rightarrow> RGBA 0 0 0 255)"

definition refStrokePixels :: "context2d \<Rightarrow> bitmap \<Rightarrow> pixel list" where
  "refStrokePixels c dst =
     map (\<lambda>i. if list_ex (\<lambda>(px, py). \<lfloor>px\<rfloor> = int (i mod width dst) \<and>
                                         \<lfloor>py\<rfloor> = int (i div width dst)) (path c)
               then parseColor (strokeStyle c) else data dst ! i)
         [0 ..< width dst * height dst]"

definition refToDataURL :: "bitmap \<Rightarrow> string" where
  "refToDataURL b =
     ''data:image/png;'' @
       concat (map (\<lambda>p. case p of RGBA r g b a \<Rightarrow> map char_of [r, g, b, a]) (data b))"

definition refApi :: gfx where
  "refApi = \<lparr>drawPixels = refDrawPixels, strokePixels = refStrokePixels,
              toDataURL = refToDataURL, fl = toDouble\<rparr>"

definition black :: pixel where "black = RGBA 0 0 0 255"

definition tool0 :: DrawingTool where
  "tool0 = \<lparr>color = ''#000000'', tool_width = 3, mode = Brush, shape = Round, opacity = 1\<rparr>"

definition pt :: "rat \<Rightarrow> rat \<Rightarrow> pointer" where
  "pt x y = \<lparr>clientX = x, clientY = y, rectLeft = 0, rectTop = 0\<rparr>"

text \<open>Small states for the examples: one-pixel canvases over a given history.\<close>

definition exState :: "bitmap \<Rightarrow> bitmap list \<Rightarrow> int \<Rightarrow> engine" where
  "exState m hs c =
     \<lparr>mainCanvas = m, tempCanvas = clearAll m, tCtx = defaultCtx, isDrawing = False,
      historyRef = hs, historyStep = c, tool = tool0\<rparr>"


definition exSmall :: engine where
  "exSmall = exState (solid 1 1 white) [solid 2 1 black, solid 1 1 white, solid 2 1 black] 1"

definition exBig :: engine where
  "exBig = exState (solid 100 100 white) [solid 100 100 white] 0"

definition exUndone :: engine where
  "exUndone = exState (solid 1 1 white) [solid 1 1 white, solid 1 1 black, solid 1 1 white] 0"

definition exFull :: engine where
  "exFull = exState (solid 1 1 black) (replicate 50 (solid 1 1 white)) 49"

text \<open>
  A run from mounting on a 2 by 1 container: a dot at the left pixel, then the window
  is shrunk to one pixel and enlarged again.
\<close>

definition mountedCtx :: context2d where
  "mountedCtx = defaultCtx\<lparr>lineCap := CapRound, lineJoin := JoinRound\<rparr>"

definition bw :: bitmap where
  "bw = \<lparr>width = 2, height = 1, data = [black, white]\<rparr>"

definition exMounted :: engine where
  "exMounted = mount refApi 2 1 tool0"

definition exStroked :: engine where
  "exStroked = run refApi [PointerDown (pt 0 0), PointerUp] exMounted"

definition exDrawn :: engine where
  "exDrawn = run refApi [Resize 1 1, Resize 2 1] exStroked"



text \<open>
  A state whose history holds entries of another size than the canvas, with a
  transparent pixel, over a red canvas.
\<close>

definition red :: pixel where "red = RGBA 255 0 0 255"

definition exEntry :: bitmap where
  "exEntry = \<lparr>width = 2, height = 2, data = [white, white, black, transparent]\<rparr>"

definition exRestore :: engine where
  "exRestore = exState (solid 2 1 red) [exEntry, solid 2 1 red, exEntry] 1"

text \<open>The container collapses to nothing after the dot was drawn.\<close>

definition exCollapsed :: engine where
  "exCollapsed = run refApi [Resize 0 0] exStroked"

text \<open>A container 3.9 pixels wide, and a dot at the middle pixel of its canvas.\<close>

definition wbw :: bitmap where
  "wbw = \<lparr>width = 3, height = 1, data = [white, black, white]\<rparr>"

definition exFraction :: engine where
  "exFraction = run refApi [PointerDown (pt 1 0), PointerUp] (mount refApi (39 / 10) 1 tool0)"

text \<open>A red canvas two pixels wide and three high, and an image of two pixels.\<close>

definition exTall :: engine where
  "exTall = exState (solid 2 3 red) [solid 2 3 red] 0"

definition exImage :: bitmap where
  "exImage = \<lparr>width = 2, height = 1, data = [black, red]\<rparr>"

section \<open>Facts about recording\<close>

lemma tl_snoc_long: "49 < length xs \<Longrightarrow> tl (xs @ [a]) = tl xs @ [a]"
  by (cases xs) simp_all

lemma saveToHistory_Done:
  "\<not> zeroSided (mainCanvas s) \<Longrightarrow>
   saveToHistory s =
     Done (s\<lparr>historyRef := fst (recorded (historyRef s) (historyStep s) (mainCanvas s)),
             historyStep := snd (recorded (historyRef s) (historyStep s) (mainCanvas s))\<rparr>)"
  by (simp add: saveToHistory_def recorded_def Let_def)

lemma saveToHistory_Threw:
  "zeroSided (mainCanvas s) \<Longrightarrow>
   saveToHistory s =
     Threw IndexSizeError
       (s\<lparr>historyRef := (if historyStep s < int (length (historyRef s)) - 1
                           then js_slice0 (historyRef s) (historyStep s + 1)
                           else historyRef s)\<rparr>)"
  by (simp add: saveToHistory_def Let_def)

lemma saveToHistory_completed: "completed (saveToHistory s) \<longleftrightarrow> \<not> zeroSided (mainCanvas s)"
  by (cases "zeroSided (mainCanvas s)") (simp_all add: saveToHistory_Done saveToHistory_Threw)

lemma saveToHistory_frame [simp]:
  "mainCanvas (after (saveToHistory s)) = mainCanvas s"
  "tempCanvas (after (saveToHistory s)) = tempCanvas s"
  "tCtx (after (saveToHistory s)) = tCtx s"
  "isDrawing (after (saveToHistory s)) = isDrawing s"
  "tool (after (saveToHistory s)) = tool s"
  by (cases "zeroSided (mainCanvas s)"; simp add: saveToHistory_Done saveToHistory_Threw)+

lemma recorded_last: "snd (recorded hs c m) = int (length (fst (recorded hs c m))) - 1"
  by (simp add: recorded_def Let_def)

lemma recorded_length_le: "length hs \<le> 50 \<Longrightarrow> length (fst (recorded hs c m)) \<le> 50"
  by (simp add: recorded_def Let_def js_slice0_def)

lemma recorded_nonempty: "fst (recorded hs c m) \<noteq> []"
  by (simp add: recorded_def Let_def tl_snoc_long)

lemma recorded_last_entry: "last (fst (recorded hs c m)) = m"
  by (simp add: recorded_def Let_def tl_snoc_long)

lemma recorded_truncates:
  assumes "0 \<le> c" "c < int (length hs) - 1" "length hs \<le> 50"
  shows "recorded hs c m = (take (nat c + 1) hs @ [m], c + 1)"
proof -
  have "nat (c + 1) = nat c + 1" "nat c + 1 < length hs" "\<not> 48 < nat c"
    using assms by linarith+
  then show ?thesis
    using assms by (simp add: recorded_def Let_def js_slice0_def min_def)
qed

lemma recorded_at_end:
  "c = int (length hs) - 1 \<Longrightarrow>
   recorded hs c m = (if 50 \<le> length hs then (tl hs @ [m], int (length hs) - 1)
                      else (hs @ [m], int (length hs)))"
  by (simp add: recorded_def Let_def tl_snoc_long)

lemma recorded_cases:
  assumes "0 \<le> c" "c < int (length hs)" "length hs \<le> 50"
  shows "recorded hs c m =
     (if length hs = 50 \<and> c = 49 then (tl hs @ [m], 49)
      else (take (nat c + 1) hs @ [m], c + 1))"
proof (cases "c = int (length hs) - 1")
  case True
  then have "take (nat c + 1) hs = hs" using assms by simp
  then show ?thesis
    using True assms recorded_at_end[OF True, of m] by auto
next
  case False
  then have "c < int (length hs) - 1" using assms by simp
  then show ?thesis
    using recorded_truncates[of c hs m] assms by auto
qed

lemma recorded_in_range:
  assumes "length hs \<le> 50"
  shows "0 \<le> snd (recorded hs c m) \<and> snd (recorded hs c m) < int (length (fst (recorded hs c m)))"
proof -
  have "0 < length (fst (recorded hs c m))" using recorded_nonempty[of hs c m] by simp
  then show ?thesis using recorded_last[of hs c m] by linarith
qed

lemma js_slice0_length: "length (js_slice0 xs e) \<le> length xs"
  by (auto simp add: js_slice0_def)

lemma js_slice0_set: "set (js_slice0 xs e) \<subseteq> set xs"
  by (auto simp add: js_slice0_def dest: in_set_takeD)

lemma recorded_entries: "set (fst (recorded hs c m)) \<subseteq> insert m (set hs)"
proof -
  define h1 where "h1 = (if c < int (length hs) - 1 then js_slice0 hs (c + 1) else hs)"
  have h1: "set h1 \<subseteq> set hs" using js_slice0_set[of hs "c + 1"] by (simp add: h1_def)
  have "fst (recorded hs c m) = (if length (h1 @ [m]) > 50 then tl (h1 @ [m]) else h1 @ [m])"
    by (simp add: recorded_def Let_def h1_def)
  moreover have "set (tl (h1 @ [m])) \<subseteq> set (h1 @ [m])"
    by (cases "h1 @ [m]") auto
  ultimately show ?thesis using h1 by auto
qed

lemma historyRef_saved_length:
  "length (historyRef s) \<le> 50 \<Longrightarrow> length (historyRef (after (saveToHistory s))) \<le> 50"
  using js_slice0_length[of "historyRef s" "historyStep s + 1"]
  by (cases "zeroSided (mainCanvas s)")
     (simp_all add: saveToHistory_Done saveToHistory_Threw recorded_length_le)

lemma historyOk_saved: "historyOk s \<Longrightarrow> historyOk (after (saveToHistory s))"
proof (cases "zeroSided (mainCanvas s)")
  case True
  assume "historyOk s"
  then show ?thesis
    using True by (auto simp add: saveToHistory_Threw historyOk_def js_slice0_def)
next
  case False
  assume "historyOk s"
  then show ?thesis
    using False recorded_in_range[of "historyRef s" "historyStep s" "mainCanvas s"]
      recorded_length_le[of "historyRef s" "historyStep s" "mainCanvas s"]
    by (simp add: saveToHistory_Done historyOk_def)
qed

lemma historyOk_first_save:
  "\<not> zeroSided (mainCanvas s) \<Longrightarrow> length (historyRef s) \<le> 50 \<Longrightarrow>
   historyOk (after (saveToHistory s))"
  using recorded_in_range[of "historyRef s" "historyStep s" "mainCanvas s"]
    recorded_length_le[of "historyRef s" "historyStep s" "mainCanvas s"]
  by (simp add: saveToHistory_Done historyOk_def)

lemma entriesOk_saved: "entriesOk s \<Longrightarrow> entriesOk (after (saveToHistory s))"
proof (cases "zeroSided (mainCanvas s)")
  case True
  assume "entriesOk s"
  then show ?thesis
    using True
    using js_slice0_set[of "historyRef s" "historyStep s + 1"]
    by (auto simp add: saveToHistory_Threw entriesOk_def list_all_iff)
next
  case False
  assume "entriesOk s"
  then show ?thesis
    using False recorded_entries[of "historyRef s" "historyStep s" "mainCanvas s"]
    by (auto simp add: saveToHistory_Done entriesOk_def list_all_iff)
qed

section \<open>What each handler leaves alone\<close>

lemma drawImage_size [simp]:
  "width (drawImage api src dx dy dw dh a dst) = width dst"
  "height (drawImage api src dx dy dw dh a dst) = height dst"
  by (simp_all add: drawImage_def)

lemma drawImage0_size [simp]:
  "width (drawImage0 api src a dst) = width dst"
  "height (drawImage0 api src a dst) = height dst"
  by (simp_all add: drawImage0_def)

lemma stroke_size [simp]:
  "width (stroke api c dst) = width dst"
  "height (stroke api c dst) = height dst"
  by (simp_all add: stroke_def)

lemma solid_size [simp]:
  "width (solid w h p) = w" "height (solid w h p) = h"
  by (simp_all add: solid_def)

lemma fill_clear_size [simp]:
  "width (fillWhite b) = width b" "height (fillWhite b) = height b"
  "width (clearAll b) = width b" "height (clearAll b) = height b"
  by (simp_all add: fillWhite_def clearAll_def)

lemma zeroSided_drawn [simp]:
  "zeroSided (drawImage api src dx dy dw dh a dst) = zeroSided dst"
  "zeroSided (drawImage0 api src a dst) = zeroSided dst"
  "zeroSided (stroke api c dst) = zeroSided dst"
  "zeroSided (fillWhite dst) = zeroSided dst"
  "zeroSided (clearAll dst) = zeroSided dst"
  by (simp_all add: zeroSided_def)

lemma applyHistoryItem_frame [simp]:
  "historyRef (after (applyHistoryItem api e s)) = historyRef s"
  "historyStep (after (applyHistoryItem api e s)) = historyStep s"
  "tempCanvas (after (applyHistoryItem api e s)) = tempCanvas s"
  "tCtx (after (applyHistoryItem api e s)) = tCtx s"
  "isDrawing (after (applyHistoryItem api e s)) = isDrawing s"
  "tool (after (applyHistoryItem api e s)) = tool s"
  by (simp_all add: applyHistoryItem_def)

lemma applyHistoryItem_size:
  "sameSize (mainCanvas (after (applyHistoryItem api e s))) (mainCanvas s)"
  by (simp add: applyHistoryItem_def sameSize_def)

lemma restore_depends_on_size:
  "sameSize (mainCanvas s') (mainCanvas s) \<Longrightarrow>
   mainCanvas (after (applyHistoryItem api e s')) = mainCanvas (after (applyHistoryItem api e s))"
  by (simp add: applyHistoryItem_def sameSize_def fillWhite_def)

lemma applyHistoryItem_completed:
  "\<not> zeroSided e \<Longrightarrow> completed (applyHistoryItem api e s)"
  by (simp add: applyHistoryItem_def)

lemma undo_frame [simp]:
  "historyRef (after (undo api s)) = historyRef s"
  "tempCanvas (after (undo api s)) = tempCanvas s"
  "tCtx (after (undo api s)) = tCtx s"
  "isDrawing (after (undo api s)) = isDrawing s"
  "tool (after (undo api s)) = tool s"
  by (simp_all add: undo_def Let_def)

lemma redo_frame [simp]:
  "historyRef (after (redo api s)) = historyRef s"
  "tempCanvas (after (redo api s)) = tempCanvas s"
  "tCtx (after (redo api s)) = tCtx s"
  "isDrawing (after (redo api s)) = isDrawing s"
  "tool (after (redo api s)) = tool s"
  by (simp_all add: redo_def Let_def)

lemma undo_size: "sameSize (mainCanvas (after (undo api s))) (mainCanvas s)"
  using applyHistoryItem_size[of api _ "s\<lparr>historyStep := historyStep s - 1\<rparr>"]
  by (simp add: undo_def Let_def sameSize_def)

lemma redo_size: "sameSize (mainCanvas (after (redo api s))) (mainCanvas s)"
  using applyHistoryItem_size[of api _ "s\<lparr>historyStep := historyStep s + 1\<rparr>"]
  by (simp add: redo_def Let_def sameSize_def)

lemma historyOk_undo: "historyOk s \<Longrightarrow> historyOk (after (undo api s))"
  by (auto simp add: historyOk_def undo_def Let_def)

lemma historyOk_redo: "historyOk s \<Longrightarrow> historyOk (after (redo api s))"
  by (auto simp add: historyOk_def redo_def Let_def)

lemma undo_completed: "entriesOk s \<Longrightarrow> completed (undo api s)"
  by (auto simp add: undo_def Let_def entriesOk_def list_all_length intro: applyHistoryItem_completed)

lemma redo_completed: "entriesOk s \<Longrightarrow> completed (redo api s)"
  by (auto simp add: redo_def Let_def entriesOk_def list_all_length intro: applyHistoryItem_completed)

lemma handleResize_frame [simp]:
  "historyRef (after (handleResize api w h s)) = historyRef s"
  "historyStep (after (handleResize api w h s)) = historyStep s"
  "isDrawing (after (handleResize api w h s)) = isDrawing s"
  "tool (after (handleResize api w h s)) = tool s"
  by (simp_all add: handleResize_def Let_def)

lemma handleResize_zero:
  "zeroSided (mainCanvas s) \<Longrightarrow> after (handleResize api w h s) = s"
  by (simp add: handleResize_def)

lemma toolEffect_frame [simp]:
  "historyRef (toolEffect s) = historyRef s"
  "historyStep (toolEffect s) = historyStep s"
  "isDrawing (toolEffect s) = isDrawing s"
  "tool (toolEffect s) = tool s"
  "mainCanvas (toolEffect s) = mainCanvas s"
  "tempCanvas (toolEffect s) = tempCanvas s"
  by (simp_all add: toolEffect_def)

lemma setTool_frame [simp]:
  "historyRef (setTool api t w h s) = historyRef s"
  "historyStep (setTool api t w h s) = historyStep s"
  "isDrawing (setTool api t w h s) = isDrawing s"
  "tool (setTool api t w h s) = t"
  by (simp_all add: setTool_def Let_def)

lemma startDrawing_frame [simp]:
  "historyRef (startDrawing api e s) = historyRef s"
  "historyStep (startDrawing api e s) = historyStep s"
  "mainCanvas (startDrawing api e s) = mainCanvas s"
  "tool (startDrawing api e s) = tool s"
  "isDrawing (startDrawing api e s)"
  "zeroSided (tempCanvas (startDrawing api e s)) = zeroSided (tempCanvas s)"
  by (simp_all add: startDrawing_def Let_def split: prod.splits)

lemma draw_frame [simp]:
  "historyRef (draw api e s) = historyRef s"
  "historyStep (draw api e s) = historyStep s"
  "mainCanvas (draw api e s) = mainCanvas s"
  "tool (draw api e s) = tool s"
  "isDrawing (draw api e s) = isDrawing s"
  "zeroSided (tempCanvas (draw api e s)) = zeroSided (tempCanvas s)"
  by (simp_all add: draw_def Let_def)

lemma draws_frame [simp]:
  "historyRef (foldl (\<lambda>s' e. draw api e s') s es) = historyRef s"
  "historyStep (foldl (\<lambda>s' e. draw api e s') s es) = historyStep s"
  "mainCanvas (foldl (\<lambda>s' e. draw api e s') s es) = mainCanvas s"
  "tool (foldl (\<lambda>s' e. draw api e s') s es) = tool s"
  "isDrawing (foldl (\<lambda>s' e. draw api e s') s es) = isDrawing s"
  "zeroSided (tempCanvas (foldl (\<lambda>s' e. draw api e s') s es)) = zeroSided (tempCanvas s)"
  by (induction es arbitrary: s) simp_all

lemma penDown_frame [simp]:
  "historyRef (penDown api st s) = historyRef s"
  "historyStep (penDown api st s) = historyStep s"
  "mainCanvas (penDown api st s) = mainCanvas s"
  "tool (penDown api st s) = tool s"
  "isDrawing (penDown api st s)"
  "zeroSided (tempCanvas (penDown api st s)) = zeroSided (tempCanvas s)"
  by (simp_all add: penDown_def)

lemma penDown_surfaceOk [simp]: "surfaceOk (penDown api st s) = surfaceOk s"
  by (simp add: surfaceOk_def)

section \<open>What the recording handlers do on a surface with pixels\<close>

lemma stopDrawing_Done:
  assumes "isDrawing s" "surfaceOk s"
  shows "stopDrawing api s =
     Done (let m = drawImage0 api (tempCanvas s)
                     (if mode (tool s) = Eraser then 1 else opacity (tool s)) (mainCanvas s)
           in s\<lparr>isDrawing := False, mainCanvas := m,
                historyRef := fst (recorded (historyRef s) (historyStep s) m),
                historyStep := snd (recorded (historyRef s) (historyStep s) m),
                tempCanvas := clearAll (tempCanvas s),
                tCtx := (tCtx s)\<lparr>path := []\<rparr>\<rparr>)"
  using assms by (simp add: stopDrawing_def surfaceOk_def Let_def saveToHistory_Done)

lemma clearCanvas_Done:
  assumes "\<not> zeroSided (mainCanvas s)"
  shows "clearCanvas s =
     Done (s\<lparr>mainCanvas := fillWhite (mainCanvas s),
             historyRef := fst (recorded (historyRef s) (historyStep s) (fillWhite (mainCanvas s))),
             historyStep := snd (recorded (historyRef s) (historyStep s) (fillWhite (mainCanvas s))),
             tempCanvas := clearAll (tempCanvas s)\<rparr>)"
  using assms by (simp add: clearCanvas_def saveToHistory_Done)

lemma stopDrawing_history:
  "isDrawing s \<Longrightarrow> surfaceOk s \<Longrightarrow>
   (historyRef (after (stopDrawing api s)), historyStep (after (stopDrawing api s))) =
     recorded (historyRef s) (historyStep s) (mainCanvas (after (stopDrawing api s)))
   \<and> completed (stopDrawing api s)"
  by (simp add: stopDrawing_Done Let_def)

lemma clearCanvas_history:
  "\<not> zeroSided (mainCanvas s) \<Longrightarrow>
   (historyRef (after (clearCanvas s)), historyStep (after (clearCanvas s))) =
     recorded (historyRef s) (historyStep s) (mainCanvas (after (clearCanvas s)))
   \<and> completed (clearCanvas s)"
  by (simp add: clearCanvas_Done)

lemma loadImage_history:
  "\<not> zeroSided (mainCanvas s) \<Longrightarrow>
   (historyRef (after (loadImage api (Some img) s)), historyStep (after (loadImage api (Some img) s))) =
     recorded (historyRef s) (historyStep s) (mainCanvas (after (loadImage api (Some img) s)))
   \<and> completed (loadImage api (Some img) s)"
  by (simp add: loadImage_def Let_def saveToHistory_Done split: prod.splits)

lemma loadImage_size:
  "sameSize (mainCanvas (after (loadImage api d s))) (mainCanvas s)"
  by (cases d) (simp_all add: loadImage_def Let_def sameSize_def split: prod.splits)

lemma clearCanvas_size: "sameSize (mainCanvas (after (clearCanvas s))) (mainCanvas s)"
  by (cases "zeroSided (mainCanvas s)")
     (simp_all add: clearCanvas_def saveToHistory_Done saveToHistory_Threw sameSize_def)

lemma stopDrawing_size: "sameSize (mainCanvas (after (stopDrawing api s))) (mainCanvas s)"
  by (cases "zeroSided (mainCanvas s)")
     (simp_all add: stopDrawing_def Let_def saveToHistory_Done saveToHistory_Threw sameSize_def)

lemma strokeOnce_history:
  "surfaceOk s \<Longrightarrow>
   (historyRef (after (strokeOnce api st s)), historyStep (after (strokeOnce api st s))) =
     recorded (historyRef s) (historyStep s) (mainCanvas (after (strokeOnce api st s)))
   \<and> completed (strokeOnce api st s)"
  using stopDrawing_history[of "penDown api st s" api] by (simp add: strokeOnce_def)

lemma strokeOnce_size: "sameSize (mainCanvas (after (strokeOnce api st s))) (mainCanvas s)"
  using stopDrawing_size[of api "penDown api st s"] by (simp add: strokeOnce_def)

lemma strokeOnce_surfaceOk: "surfaceOk s \<Longrightarrow> surfaceOk (after (strokeOnce api st s))"
  using stopDrawing_Done[of "penDown api st s" api]
  by (simp add: strokeOnce_def Let_def) (simp add: surfaceOk_def)

section \<open>When a handler completes\<close>

lemma stopDrawing_completed:
  "isDrawing s \<Longrightarrow> completed (stopDrawing api s) \<longleftrightarrow> surfaceOk s"
  by (cases "zeroSided (mainCanvas s)")
     (simp_all add: stopDrawing_def Let_def saveToHistory_Done saveToHistory_Threw surfaceOk_def)

lemma strokeOnce_completed: "completed (strokeOnce api st s) \<longleftrightarrow> surfaceOk s"
  using stopDrawing_completed[of "penDown api st s" api] by (simp add: strokeOnce_def)

lemma clearCanvas_completed: "completed (clearCanvas s) \<longleftrightarrow> \<not> zeroSided (mainCanvas s)"
  by (cases "zeroSided (mainCanvas s)")
     (simp_all add: clearCanvas_def saveToHistory_Done saveToHistory_Threw)

lemma loadImage_completed:
  "completed (loadImage api (Some img) s) \<longleftrightarrow> \<not> zeroSided (mainCanvas s)"
  by (cases "zeroSided (mainCanvas s)")
     (simp_all add: loadImage_def Let_def saveToHistory_Done saveToHistory_Threw split: prod.splits)

lemma handleResize_completed:
  "completed (handleResize api w h s) \<longleftrightarrow>
     \<not> zeroSided (mainCanvas s) \<or> (of_nat (width (mainCanvas s)) = w \<and> of_nat (height (mainCanvas s)) = h)"
  by (auto simp add: handleResize_def Let_def)

lemma loadImage_as_save:
  "\<exists>m. loadImage api (Some img) s = saveToHistory (s\<lparr>mainCanvas := m\<rparr>)"
proof -
  obtain ox oy dw dh where
    "aspectFit api (width (mainCanvas s)) (height (mainCanvas s)) (width img) (height img)
       = (ox, oy, dw, dh)"
    by (cases "aspectFit api (width (mainCanvas s)) (height (mainCanvas s)) (width img) (height img)")
  then show ?thesis by (simp add: loadImage_def Let_def) blast
qed

section \<open>Invariants of the reachable states\<close>

lemma historyOk_stopDrawing: "historyOk s \<Longrightarrow> historyOk (after (stopDrawing api s))"
proof -
  assume ok: "historyOk s"
  let ?s1 = "s\<lparr>isDrawing := False,
                mainCanvas := drawImage0 api (tempCanvas s)
                   (if mode (tool s) = Eraser then 1 else opacity (tool s)) (mainCanvas s)\<rparr>"
  have "historyOk ?s1" using ok by (simp add: historyOk_def)
  from historyOk_saved[OF this] show ?thesis
    using ok
    by (cases "zeroSided (mainCanvas s)")
       (simp_all add: stopDrawing_def Let_def saveToHistory_Done saveToHistory_Threw historyOk_def)
qed

lemma historyOk_clearCanvas: "historyOk s \<Longrightarrow> historyOk (after (clearCanvas s))"
proof -
  assume ok: "historyOk s"
  then have "historyOk (s\<lparr>mainCanvas := fillWhite (mainCanvas s)\<rparr>)" by (simp add: historyOk_def)
  from historyOk_saved[OF this] show ?thesis
    by (cases "zeroSided (mainCanvas s)")
       (simp_all add: clearCanvas_def saveToHistory_Done saveToHistory_Threw historyOk_def)
qed

lemma historyOk_loadImage: "historyOk s \<Longrightarrow> historyOk (after (loadImage api d s))"
proof (cases d)
  case None
  then show "historyOk s \<Longrightarrow> ?thesis" by (simp add: loadImage_def)
next
  case (Some img)
  assume ok: "historyOk s"
  obtain m where m: "after (loadImage api d s) = after (saveToHistory (s\<lparr>mainCanvas := m\<rparr>))"
    using loadImage_as_save[of api img s] Some by auto
  have "historyOk (s\<lparr>mainCanvas := m\<rparr>)" using ok by (simp add: historyOk_def)
  from historyOk_saved[OF this] m show ?thesis by simp
qed

lemma historyOk_step: "historyOk s \<Longrightarrow> historyOk (step api s e)"
  by (cases e)
     (simp_all add: historyOk_stopDrawing historyOk_undo historyOk_redo historyOk_clearCanvas
        historyOk_loadImage exportImage_def, simp_all add: historyOk_def)

lemma historyOk_run: "historyOk s \<Longrightarrow> historyOk (run api es s)"
  unfolding run_def by (induction es arbitrary: s) (simp_all add: historyOk_step)

lemma entriesOk_stopDrawing: "entriesOk s \<Longrightarrow> entriesOk (after (stopDrawing api s))"
proof -
  assume ok: "entriesOk s"
  let ?s1 = "s\<lparr>isDrawing := False,
                mainCanvas := drawImage0 api (tempCanvas s)
                   (if mode (tool s) = Eraser then 1 else opacity (tool s)) (mainCanvas s)\<rparr>"
  have "entriesOk ?s1" using ok by (simp add: entriesOk_def)
  from entriesOk_saved[OF this] show ?thesis
    using ok
    by (cases "zeroSided (mainCanvas s)")
       (simp_all add: stopDrawing_def Let_def saveToHistory_Done saveToHistory_Threw entriesOk_def)
qed

lemma entriesOk_clearCanvas: "entriesOk s \<Longrightarrow> entriesOk (after (clearCanvas s))"
proof -
  assume ok: "entriesOk s"
  then have "entriesOk (s\<lparr>mainCanvas := fillWhite (mainCanvas s)\<rparr>)" by (simp add: entriesOk_def)
  from entriesOk_saved[OF this] show ?thesis
    by (cases "zeroSided (mainCanvas s)")
       (simp_all add: clearCanvas_def saveToHistory_Done saveToHistory_Threw entriesOk_def)
qed

lemma entriesOk_loadImage: "entriesOk s \<Longrightarrow> entriesOk (after (loadImage api d s))"
proof (cases d)
  case None
  then show "entriesOk s \<Longrightarrow> ?thesis" by (simp add: loadImage_def)
next
  case (Some img)
  assume ok: "entriesOk s"
  obtain m where m: "after (loadImage api d s) = after (saveToHistory (s\<lparr>mainCanvas := m\<rparr>))"
    using loadImage_as_save[of api img s] Some by auto
  have "entriesOk (s\<lparr>mainCanvas := m\<rparr>)" using ok by (simp add: entriesOk_def)
  from entriesOk_saved[OF this] m show ?thesis by simp
qed

lemma entriesOk_step: "entriesOk s \<Longrightarrow> entriesOk (step api s e)"
  by (cases e)
     (simp_all add: entriesOk_stopDrawing entriesOk_clearCanvas entriesOk_loadImage exportImage_def,
      simp_all add: entriesOk_def)

lemma entriesOk_run: "entriesOk s \<Longrightarrow> entriesOk (run api es s)"
  unfolding run_def by (induction es arbitrary: s) (simp_all add: entriesOk_step)

lemma initCanvases_eq:
  "initCanvases (unmounted t) =
     (unmounted t)\<lparr>mainCanvas := solid 300 150 white,
                   tCtx := defaultCtx\<lparr>lineCap := CapRound, lineJoin := JoinRound\<rparr>,
                   historyRef := [solid 300 150 white], historyStep := 0\<rparr>"
  by (simp add: initCanvases_def unmounted_def Let_def fillWhite_def saveToHistory_Done
      zeroSided_def recorded_def)

lemma mount_history:
  "historyRef (mount api w h t) = [solid 300 150 white]" "historyStep (mount api w h t) = 0"
  by (simp_all add: mount_def initCanvases_eq)

lemma historyOk_mount: "historyOk (mount api w h t)"
  by (simp add: historyOk_def mount_history)

lemma entriesOk_mount: "entriesOk (mount api w h t)"
  by (simp add: entriesOk_def mount_history zeroSided_def)

lemma initCanvases_canvases:
  "mainCanvas (initCanvases (unmounted t)) = solid 300 150 white"
  "tempCanvas (initCanvases (unmounted t)) = solid 300 150 transparent"
  by (simp_all add: initCanvases_eq) (simp add: unmounted_def)

lemma surfaceOk_mount: "1 \<le> w \<Longrightarrow> 1 \<le> h \<Longrightarrow> surfaceOk (mount api w h t)"
proof -
  assume "1 \<le> w" "1 \<le> h"
  then have "0 < toDim w" "0 < toDim h" by (simp_all add: toDim_def)
  then show ?thesis
    by (simp add: mount_def handleResize_def Let_def surfaceOk_def zeroSided_def
        initCanvases_canvases toolEffect_def)
qed

text \<open>Once the committed canvas has a zero side, no handler gives it pixels again.\<close>

lemma zeroSided_step: "zeroSided (mainCanvas s) \<Longrightarrow> zeroSided (mainCanvas (step api s e))"
proof (cases e)
  case PointerUp
  then show "zeroSided (mainCanvas s) \<Longrightarrow> ?thesis"
    using stopDrawing_size[of api s] by (simp add: sameSize_def zeroSided_def)
next
  case Undo
  then show "zeroSided (mainCanvas s) \<Longrightarrow> ?thesis"
    using undo_size[of api s] by (simp add: sameSize_def zeroSided_def)
next
  case Redo
  then show "zeroSided (mainCanvas s) \<Longrightarrow> ?thesis"
    using redo_size[of api s] by (simp add: sameSize_def zeroSided_def)
next
  case Clear
  then show "zeroSided (mainCanvas s) \<Longrightarrow> ?thesis"
    using clearCanvas_size[of s] by (simp add: sameSize_def zeroSided_def)
next
  case (Load d)
  then show "zeroSided (mainCanvas s) \<Longrightarrow> ?thesis"
    using loadImage_size[of api d s] by (simp add: sameSize_def zeroSided_def)
next
  case (Resize w h)
  then show "zeroSided (mainCanvas s) \<Longrightarrow> ?thesis" by (simp add: handleResize_zero)
next
  case (SetTool t w h)
  then show "zeroSided (mainCanvas s) \<Longrightarrow> ?thesis"
    using handleResize_zero[of "s\<lparr>tool := t\<rparr>" api w h] by (simp add: setTool_def Let_def)
qed (simp_all add: exportImage_def)

lemma zeroSided_stays: "zeroSided (mainCanvas s) \<Longrightarrow> zeroSided (mainCanvas (run api es s))"
  unfolding run_def by (induction es arbitrary: s) (simp_all add: zeroSided_step)

section \<open>Recording, undo and redo\<close>

lemma redo_at_end: "historyStep s = int (length (historyRef s)) - 1 \<Longrightarrow> redo api s = Done s"
  by (simp add: redo_def)

lemma strokeOnce_at_end:
  assumes "surfaceOk s"
  shows "historyStep (after (strokeOnce api st s)) =
           int (length (historyRef (after (strokeOnce api st s)))) - 1"
  using strokeOnce_history[OF assms, of api st]
    recorded_last[of "historyRef s" "historyStep s" "mainCanvas (after (strokeOnce api st s))"]
  by (metis fst_conv snd_conv)

lemma undo_surfaceOk: "surfaceOk s \<Longrightarrow> surfaceOk (after (undo api s))"
  using undo_size[of api s] by (simp add: surfaceOk_def sameSize_def zeroSided_def)

lemma redo_surfaceOk: "surfaceOk s \<Longrightarrow> surfaceOk (after (redo api s))"
  using redo_size[of api s] by (simp add: surfaceOk_def sameSize_def zeroSided_def)

text \<open>
  Claim C2. On a surface with pixels, when an entry is recorded while the cursor is
  before the last entry (and the history is within its bound), the entries after the
  cursor are dropped, the new snapshot is appended and the cursor is the last index;
  this is what a completed stroke, \<^verbatim>\<open>clearCanvas\<close> and a successful \<^verbatim>\<open>loadImage\<close> do, and
  on such a surface they complete. After an undo followed by a completed stroke,
  redo changes nothing.
\<close>

theorem C2_branch_destruction:
  "(0 \<le> historyStep s \<and> historyStep s < int (length (historyRef s)) - 1
      \<and> length (historyRef s) \<le> 50 \<and> surfaceOk s
     \<longrightarrow> (let keep = take (nat (historyStep s) + 1) (historyRef s)
          in saveToHistory s =
               Done (s\<lparr>historyRef := keep @ [mainCanvas s], historyStep := int (length keep)\<rparr>)
           \<and> completed (strokeOnce api st s)
           \<and> historyRef (after (strokeOnce api st s)) = keep @ [mainCanvas (after (strokeOnce api st s))]
           \<and> historyStep (after (strokeOnce api st s)) = int (length keep)
           \<and> completed (clearCanvas s)
           \<and> historyRef (after (clearCanvas s)) = keep @ [mainCanvas (after (clearCanvas s))]
           \<and> historyStep (after (clearCanvas s)) = int (length keep)
           \<and> completed (loadImage api (Some img) s)
           \<and> historyRef (after (loadImage api (Some img) s)) =
                keep @ [mainCanvas (after (loadImage api (Some img) s))]
           \<and> historyStep (after (loadImage api (Some img) s)) = int (length keep)))
   \<and> (surfaceOk s0 \<longrightarrow>
        completed (strokeOnce api st (after (undo api s0)))
      \<and> redo api (after (strokeOnce api st (after (undo api s0)))) =
          Done (after (strokeOnce api st (after (undo api s0)))))"
proof (intro conjI impI)
  assume a: "0 \<le> historyStep s \<and> historyStep s < int (length (historyRef s)) - 1
      \<and> length (historyRef s) \<le> 50 \<and> surfaceOk s"
  then have ok: "surfaceOk s" and nz: "\<not> zeroSided (mainCanvas s)"
    by (simp_all add: surfaceOk_def)
  define keep where "keep = take (nat (historyStep s) + 1) (historyRef s)"
  have len: "int (length keep) = historyStep s + 1"
    using a by (auto simp add: keep_def min_def)
  have r: "recorded (historyRef s) (historyStep s) m = (keep @ [m], int (length keep))" for m
    using a recorded_truncates[of "historyStep s" "historyRef s" m] len by (simp add: keep_def)
  have "saveToHistory s =
          Done (s\<lparr>historyRef := keep @ [mainCanvas s], historyStep := int (length keep)\<rparr>)"
    using saveToHistory_Done[OF nz] by (simp add: r)
  moreover note strokeOnce_history[OF ok, of api st] clearCanvas_history[OF nz]
    loadImage_history[OF nz, of api img]
  ultimately show "let keep = take (nat (historyStep s) + 1) (historyRef s)
          in saveToHistory s =
               Done (s\<lparr>historyRef := keep @ [mainCanvas s], historyStep := int (length keep)\<rparr>)
           \<and> completed (strokeOnce api st s)
           \<and> historyRef (after (strokeOnce api st s)) = keep @ [mainCanvas (after (strokeOnce api st s))]
           \<and> historyStep (after (strokeOnce api st s)) = int (length keep)
           \<and> completed (clearCanvas s)
           \<and> historyRef (after (clearCanvas s)) = keep @ [mainCanvas (after (clearCanvas s))]
           \<and> historyStep (after (clearCanvas s)) = int (length keep)
           \<and> completed (loadImage api (Some img) s)
           \<and> historyRef (after (loadImage api (Some img) s)) =
                keep @ [mainCanvas (after (loadImage api (Some img) s))]
           \<and> historyStep (after (loadImage api (Some img) s)) = int (length keep)"
    unfolding Let_def keep_def[symmetric] by (simp add: r)
next
  assume "surfaceOk s0"
  then have u: "surfaceOk (after (undo api s0))" by (rule undo_surfaceOk)
  show "completed (strokeOnce api st (after (undo api s0)))"
    using u by (simp add: strokeOnce_completed)
  show "redo api (after (strokeOnce api st (after (undo api s0)))) =
          Done (after (strokeOnce api st (after (undo api s0))))"
    by (rule redo_at_end) (rule strokeOnce_at_end[OF u])
qed

theorem C2_branch_destruction_witness:
  "(0 \<le> historyStep exUndone \<and> historyStep exUndone < int (length (historyRef exUndone)) - 1
      \<and> length (historyRef exUndone) \<le> 50 \<and> surfaceOk exUndone)
   \<and> saveToHistory exUndone =
       Done (exUndone\<lparr>historyRef := [solid 1 1 white, solid 1 1 white], historyStep := 1\<rparr>)
   \<and> completed (clearCanvas exUndone)
   \<and> historyRef (after (clearCanvas exUndone)) = [solid 1 1 white, solid 1 1 white]
   \<and> historyStep (after (clearCanvas exUndone)) = 1
   \<and> redo refApi (after (clearCanvas exUndone)) = Done (after (clearCanvas exUndone))"
  using C2_branch_destruction [of exUndone refApi "(pt 0 0, [])" "solid 1 1 black" exUndone]
  by (simp add: exUndone_def exState_def Let_def clearCanvas_def fillWhite_def solid_def
      redo_def saveToHistory_def js_slice0_def surfaceOk_def zeroSided_def clearAll_def)

section \<open>The bound on the history\<close>

lemma strokes_Cons:
  "strokes api (st # sts) s = strokes api sts (after (strokeOnce api st s))"
  by (simp add: strokes_def)

lemma strokes_count:
  "surfaceOk s \<Longrightarrow> historyStep s = int (length (historyRef s)) - 1 \<Longrightarrow>
   length (historyRef s) \<le> 50 \<Longrightarrow>
   length (historyRef (strokes api sts s)) = min (length (historyRef s) + length sts) 50 \<and>
   historyStep (strokes api sts s) = int (min (length (historyRef s) + length sts) 50) - 1"
proof (induction sts arbitrary: s)
  case Nil
  then show ?case by (simp add: strokes_def)
next
  case (Cons st sts)
  let ?s1 = "after (strokeOnce api st s)"
  have r: "(historyRef ?s1, historyStep ?s1) =
      (if 50 \<le> length (historyRef s) then (tl (historyRef s) @ [mainCanvas ?s1], int (length (historyRef s)) - 1)
       else (historyRef s @ [mainCanvas ?s1], int (length (historyRef s))))"
    using strokeOnce_history[OF Cons.prems(1), of api st] recorded_at_end[OF Cons.prems(2)] by simp
  have l1: "length (historyRef ?s1) = min (length (historyRef s) + 1) 50"
    using r Cons.prems(3) by (auto split: if_splits)
  have s1: "historyStep ?s1 = int (length (historyRef ?s1)) - 1"
    by (rule strokeOnce_at_end[OF Cons.prems(1)])
  have ok1: "surfaceOk ?s1" by (rule strokeOnce_surfaceOk[OF Cons.prems(1)])
  have "length (historyRef ?s1) \<le> 50" using l1 by simp
  from Cons.IH[OF ok1 s1 this] l1 show ?case
    by (simp add: strokes_Cons min_def)
qed

text \<open>
  Claim C3. The history never holds more than 50 entries in any state reached from
  mounting. After \<open>N\<close> strokes from the state mounted in a container of at least one
  pixel each way there are \<open>min (N + 1) 50\<close> entries and the cursor is \<open>min N 49\<close>, the
  last index. On a committed canvas with pixels, recording with a full history and the
  cursor at its end evicts the oldest entry and leaves the cursor at 49; otherwise it
  truncates after the cursor, appends and advances.
\<close>

theorem C3_history_cap:
  "length (historyRef (run api es (mount api w h t))) \<le> 50
   \<and> (1 \<le> w \<and> 1 \<le> h \<longrightarrow>
        length (historyRef (strokes api sts (mount api w h t))) = min (length sts + 1) 50
      \<and> historyStep (strokes api sts (mount api w h t)) = int (min (length sts) 49))
   \<and> (historyOk s \<and> \<not> zeroSided (mainCanvas s) \<longrightarrow>
        saveToHistory s =
          Done (if length (historyRef s) = 50 \<and> historyStep s = 49
                then s\<lparr>historyRef := tl (historyRef s) @ [mainCanvas s], historyStep := 49\<rparr>
                else s\<lparr>historyRef := take (nat (historyStep s) + 1) (historyRef s) @ [mainCanvas s],
                       historyStep := historyStep s + 1\<rparr>))"
proof (intro conjI impI)
  show "length (historyRef (run api es (mount api w h t))) \<le> 50"
    using historyOk_run[OF historyOk_mount, of api es api w h t] by (simp add: historyOk_def)
next
  assume "1 \<le> w \<and> 1 \<le> h"
  then have ok: "surfaceOk (mount api w h t)" by (simp add: surfaceOk_mount)
  have "length (historyRef (strokes api sts (mount api w h t))) = min (1 + length sts) 50 \<and>
        historyStep (strokes api sts (mount api w h t)) = int (min (1 + length sts) 50) - 1"
    using strokes_count[OF ok, of api sts] by (simp add: mount_history)
  then show "length (historyRef (strokes api sts (mount api w h t))) = min (length sts + 1) 50"
    and "historyStep (strokes api sts (mount api w h t)) = int (min (length sts) 49)"
    by (simp_all add: min_def)
next
  assume w: "historyOk s \<and> \<not> zeroSided (mainCanvas s)"
  then have "recorded (historyRef s) (historyStep s) (mainCanvas s) =
     (if length (historyRef s) = 50 \<and> historyStep s = 49 then (tl (historyRef s) @ [mainCanvas s], 49)
      else (take (nat (historyStep s) + 1) (historyRef s) @ [mainCanvas s], historyStep s + 1))"
    by (intro recorded_cases) (simp_all add: historyOk_def)
  then show "saveToHistory s =
          Done (if length (historyRef s) = 50 \<and> historyStep s = 49
                then s\<lparr>historyRef := tl (historyRef s) @ [mainCanvas s], historyStep := 49\<rparr>
                else s\<lparr>historyRef := take (nat (historyStep s) + 1) (historyRef s) @ [mainCanvas s],
                       historyStep := historyStep s + 1\<rparr>)"
    using w by (simp add: saveToHistory_Done)
qed

theorem C3_history_cap_witness:
  "(1 \<le> (1::rat) \<and> 1 \<le> (1::rat))
   \<and> length (historyRef (strokes refApi [(pt 0 0, []), (pt 0 0, [])] (mount refApi 1 1 tool0))) = 3
   \<and> historyStep (strokes refApi [(pt 0 0, []), (pt 0 0, [])] (mount refApi 1 1 tool0)) = 2
   \<and> (historyOk exFull \<and> \<not> zeroSided (mainCanvas exFull))
   \<and> saveToHistory exFull =
       Done (exFull\<lparr>historyRef := replicate 49 (solid 1 1 white) @ [solid 1 1 black],
                    historyStep := 49\<rparr>)"
proof -
  have "tl (replicate 50 (solid 1 1 white)) = replicate 49 (solid 1 1 white)"
    by (simp add: tl_replicate)
  then show ?thesis
    using C3_history_cap [of refApi "[]" 1 1 tool0 "[(pt 0 0, []), (pt 0 0, [])]" exFull]
    by (simp add: exFull_def exState_def historyOk_def zeroSided_def solid_def)
qed

section \<open>Finishing a stroke\<close>

lemma floor_rat_numeral_div [simp]: "\<lfloor>numeral a / numeral b :: rat\<rfloor> = numeral a div numeral b"
  by (metis floor_divide_of_int_eq of_int_numeral)

lemma floor_rat_one_div [simp]: "\<lfloor>1 / numeral b :: rat\<rfloor> = 1 div numeral b"
  by (metis floor_divide_of_int_eq of_int_1 of_int_numeral)

text \<open>A stroke that ends on canvases without pixels raises and records nothing.\<close>

lemma stopDrawing_zero_sided:
  "isDrawing s \<Longrightarrow> zeroSided (tempCanvas s) \<Longrightarrow>
   stopDrawing api s = Threw InvalidStateError (s\<lparr>isDrawing := False\<rparr>)"
  by (simp add: stopDrawing_def)





section \<open>Restoring an entry of another size\<close>

lemma replicate_two: "replicate 2 x = [x, x]"
  by (simp add: numeral_2_eq_2)

text \<open>
  Claim C7. Restoring an entry that has pixels, as every recorded entry has, onto a
  committed canvas of another size completes: the canvas becomes the white canvas of
  its own size with the entry drawn over it, scaled to the full current bounds.
  \<^verbatim>\<open>undo\<close> and \<^verbatim>\<open>redo\<close> restore such an entry this way and move the cursor, and in every
  state reached from mounting neither of them raises.
\<close>

theorem C7_restore_rescales:
  "(\<not> zeroSided e \<and> \<not> sameSize e (mainCanvas s) \<longrightarrow>
      applyHistoryItem api e s =
        Done (s\<lparr>mainCanvas :=
                 drawImage api e 0 0 (of_nat (width (mainCanvas s))) (of_nat (height (mainCanvas s))) 1
                   (solid (width (mainCanvas s)) (height (mainCanvas s)) white)\<rparr>)
    \<and> sameSize (mainCanvas (after (applyHistoryItem api e s))) (mainCanvas s))
   \<and> (entriesOk s1 \<and> 0 < historyStep s1 \<and> historyStep s1 \<le> int (length (historyRef s1))
        \<and> \<not> sameSize (historyRef s1 ! nat (historyStep s1 - 1)) (mainCanvas s1) \<longrightarrow>
        undo api s1 =
          Done (s1\<lparr>historyStep := historyStep s1 - 1,
                   mainCanvas :=
                     drawImage api (historyRef s1 ! nat (historyStep s1 - 1)) 0 0
                       (of_nat (width (mainCanvas s1))) (of_nat (height (mainCanvas s1))) 1
                       (solid (width (mainCanvas s1)) (height (mainCanvas s1)) white)\<rparr>))
   \<and> (entriesOk s2 \<and> 0 \<le> historyStep s2 + 1 \<and> historyStep s2 + 1 < int (length (historyRef s2))
        \<and> \<not> sameSize (historyRef s2 ! nat (historyStep s2 + 1)) (mainCanvas s2) \<longrightarrow>
        redo api s2 =
          Done (s2\<lparr>historyStep := historyStep s2 + 1,
                   mainCanvas :=
                     drawImage api (historyRef s2 ! nat (historyStep s2 + 1)) 0 0
                       (of_nat (width (mainCanvas s2))) (of_nat (height (mainCanvas s2))) 1
                       (solid (width (mainCanvas s2)) (height (mainCanvas s2)) white)\<rparr>))
   \<and> entriesOk (run api es (mount api w h t))
   \<and> completed (undo api (run api es (mount api w h t)))
   \<and> completed (redo api (run api es (mount api w h t)))"
proof (intro conjI impI)
  assume a: "\<not> zeroSided e \<and> \<not> sameSize e (mainCanvas s)"
  then show "applyHistoryItem api e s =
        Done (s\<lparr>mainCanvas :=
                 drawImage api e 0 0 (of_nat (width (mainCanvas s))) (of_nat (height (mainCanvas s))) 1
                   (solid (width (mainCanvas s)) (height (mainCanvas s)) white)\<rparr>)"
    by (auto simp add: applyHistoryItem_def sameSize_def fillWhite_def)
  show "sameSize (mainCanvas (after (applyHistoryItem api e s))) (mainCanvas s)"
    by (rule applyHistoryItem_size)
next
  assume a: "entriesOk s1 \<and> 0 < historyStep s1 \<and> historyStep s1 \<le> int (length (historyRef s1))
        \<and> \<not> sameSize (historyRef s1 ! nat (historyStep s1 - 1)) (mainCanvas s1)"
  then have lt: "nat (historyStep s1 - 1) < length (historyRef s1)" by linarith
  then have "\<not> zeroSided (historyRef s1 ! nat (historyStep s1 - 1))"
    using a by (simp add: entriesOk_def list_all_length)
  then show "undo api s1 =
          Done (s1\<lparr>historyStep := historyStep s1 - 1,
                   mainCanvas :=
                     drawImage api (historyRef s1 ! nat (historyStep s1 - 1)) 0 0
                       (of_nat (width (mainCanvas s1))) (of_nat (height (mainCanvas s1))) 1
                       (solid (width (mainCanvas s1)) (height (mainCanvas s1)) white)\<rparr>)"
    using a lt by (auto simp add: undo_def Let_def applyHistoryItem_def sameSize_def fillWhite_def)
next
  assume a: "entriesOk s2 \<and> 0 \<le> historyStep s2 + 1 \<and> historyStep s2 + 1 < int (length (historyRef s2))
        \<and> \<not> sameSize (historyRef s2 ! nat (historyStep s2 + 1)) (mainCanvas s2)"
  then have lt: "nat (historyStep s2 + 1) < length (historyRef s2)" by linarith
  then have "\<not> zeroSided (historyRef s2 ! nat (historyStep s2 + 1))"
    using a by (simp add: entriesOk_def list_all_length)
  then show "redo api s2 =
          Done (s2\<lparr>historyStep := historyStep s2 + 1,
                   mainCanvas :=
                     drawImage api (historyRef s2 ! nat (historyStep s2 + 1)) 0 0
                       (of_nat (width (mainCanvas s2))) (of_nat (height (mainCanvas s2))) 1
                       (solid (width (mainCanvas s2)) (height (mainCanvas s2)) white)\<rparr>)"
    using a lt by (auto simp add: redo_def Let_def applyHistoryItem_def sameSize_def fillWhite_def)
next
  show ok: "entriesOk (run api es (mount api w h t))"
    by (rule entriesOk_run) (rule entriesOk_mount)
  show "completed (undo api (run api es (mount api w h t)))"
    by (rule undo_completed) (rule ok)
  show "completed (redo api (run api es (mount api w h t)))"
    by (rule redo_completed) (rule ok)
qed

lemma chan_of_nat [simp]: "chan (of_nat n) = n"
  by (simp add: chan_def)

lemma chan_numeral [simp]: "chan (numeral n) = numeral n"
  using chan_of_nat[of "numeral n"] by simp

lemma chan_zero [simp]: "chan 0 = 0"
  using chan_of_nat[of 0] by simp

lemma blend_opaque: "blend 1 (RGBA r g b 255) q = RGBA r g b 255"
  by (cases q) (simp add: Let_def)

lemma blend_clear: "blend a transparent (RGBA r g b 255) = RGBA r g b 255"
  by (simp add: transparent_def Let_def)

lemma blend_facts [simp]:
  "blend 1 black q = black" "blend 1 white q = white" "blend 1 red q = red"
  "blend a transparent white = white" "blend a transparent black = black"
  "blend a transparent red = red"
  by (simp_all add: black_def white_def red_def blend_opaque blend_clear)

lemma upt_two: "[0..<2] = [0, Suc 0]"
  by (simp add: upt_rec)

lemma two_pixels: "[0..<2 * Suc 0] = [0, Suc 0]" "[0..<Suc 0 * Suc 0] = [0]"
  by (simp_all add: upt_rec)

lemmas ref_eval = drawImage0_def drawImage_def refApi_def refDrawPixels_def pixel_at_def
  sampleIndex_def solid_def replicate_two two_pixels upt_two Let_def

lemma restore_exEntry:
  "drawImage refApi exEntry 0 0 2 1 1 (solid 2 1 white) = bw"
  by (simp add: ref_eval exEntry_def bw_def)

theorem C7_restore_rescales_witness:
  "(\<not> zeroSided exEntry \<and> \<not> sameSize exEntry (mainCanvas exRestore))
   \<and> (entriesOk exRestore \<and> 0 < historyStep exRestore
      \<and> historyStep exRestore \<le> int (length (historyRef exRestore))
      \<and> \<not> sameSize (historyRef exRestore ! nat (historyStep exRestore - 1)) (mainCanvas exRestore))
   \<and> (0 \<le> historyStep exRestore + 1 \<and> historyStep exRestore + 1 < int (length (historyRef exRestore))
      \<and> \<not> sameSize (historyRef exRestore ! nat (historyStep exRestore + 1)) (mainCanvas exRestore))
   \<and> mainCanvas exRestore = solid 2 1 red
   \<and> applyHistoryItem refApi exEntry exRestore = Done (exRestore\<lparr>mainCanvas := bw\<rparr>)
   \<and> undo refApi exRestore = Done (exRestore\<lparr>historyStep := 0, mainCanvas := bw\<rparr>)
   \<and> redo refApi exRestore = Done (exRestore\<lparr>historyStep := 2, mainCanvas := bw\<rparr>)
   \<and> bw = \<lparr>width = 2, height = 1, data = [black, white]\<rparr>"
proof -
  have e: "width exEntry = 2" "height exEntry = 2" by (simp_all add: exEntry_def)
  show ?thesis
    using C7_restore_rescales [of exEntry exRestore refApi exRestore exRestore "[]" 2 1 tool0]
    by (simp add: exRestore_def exState_def sameSize_def zeroSided_def entriesOk_def e
        restore_exEntry[unfolded One_nat_def] bw_def)
qed

section \<open>Exporting\<close>

text \<open>
  Claim C10. \<^verbatim>\<open>exportImage\<close> returns the encoding of the committed bitmap and leaves
  the whole state as it was: committed and scratch pixels, history entries and cursor.
\<close>

theorem C10_export_pure:
  "fst (exportImage api s) = toDataURL api (mainCanvas s)
   \<and> snd (exportImage api s) = s
   \<and> step api s Export = s
   \<and> mainCanvas (step api s Export) = mainCanvas s
   \<and> tempCanvas (step api s Export) = tempCanvas s
   \<and> historyRef (step api s Export) = historyRef s
   \<and> historyStep (step api s Export) = historyStep s"
  by (simp add: exportImage_def)

section \<open>Undo after an operation that records\<close>

lemma undo_after_record:
  assumes ok: "historyOk s"
    and rec: "(historyRef s', historyStep s') = recorded (historyRef s) (historyStep s) m"
    and sz: "sameSize (mainCanvas s') (mainCanvas s)"
  shows "mainCanvas (after (undo api s')) =
           mainCanvas (after (applyHistoryItem api (historyRef s ! nat (historyStep s)) s))
     \<and> historyStep (after (undo api s')) = historyStep s' - 1
     \<and> historyRef s' ! nat (historyStep s') = m
     \<and> historyStep s' = int (length (historyRef s')) - 1
     \<and> 0 < historyStep s'"
proof -
  let ?hs = "historyRef s" and ?c = "historyStep s"
  have c: "0 \<le> ?c" "?c < int (length ?hs)" "length ?hs \<le> 50"
    using ok by (simp_all add: historyOk_def)
  have r: "(historyRef s', historyStep s') =
     (if length ?hs = 50 \<and> ?c = 49 then (tl ?hs @ [m], 49)
      else (take (nat ?c + 1) ?hs @ [m], ?c + 1))"
    using rec recorded_cases[OF c, of m] by simp
  have pos: "0 < historyStep s'" using r c by (auto split: if_splits)
  have lt: "nat (historyStep s' - 1) < length (historyRef s')"
    using r c by (auto split: if_splits)
  have ent: "historyRef s' ! nat (historyStep s' - 1) = ?hs ! nat ?c"
  proof (cases "length ?hs = 50 \<and> ?c = 49")
    case True
    have "(historyRef s', historyStep s') = (tl ?hs @ [m], 49)"
      using r unfolding if_P[OF True] .
    then have "historyRef s' = tl ?hs @ [m]" "historyStep s' = 49" by simp_all
    moreover have "(tl ?hs @ [m]) ! 48 = ?hs ! 49"
      using True by (simp add: nth_append nth_tl)
    ultimately show ?thesis using True by simp
  next
    case False
    have "(historyRef s', historyStep s') = (take (nat ?c + 1) ?hs @ [m], ?c + 1)"
      using r unfolding if_not_P[OF False] .
    then have "historyRef s' = take (nat ?c + 1) ?hs @ [m]" "historyStep s' = ?c + 1"
      by simp_all
    moreover have "(take (nat ?c + 1) ?hs @ [m]) ! nat ?c = ?hs ! nat ?c"
      using c by (simp add: nth_append)
    ultimately show ?thesis by simp
  qed
  have "mainCanvas (after (undo api s')) =
           mainCanvas (after (applyHistoryItem api (historyRef s ! nat (historyStep s)) s))"
  proof -
    let ?s1 = "s'\<lparr>historyStep := historyStep s' - 1\<rparr>"
    have u: "undo api s' = applyHistoryItem api (?hs ! nat ?c) ?s1"
      using pos lt ent by (simp add: undo_def Let_def)
    have "sameSize (mainCanvas ?s1) (mainCanvas s)" using sz by simp
    from restore_depends_on_size[OF this] u show ?thesis by simp
  qed
  moreover have "historyStep (after (undo api s')) = historyStep s' - 1"
    using pos by (simp add: undo_def Let_def)
  moreover have "historyRef s' ! nat (historyStep s') = m"
    using r c by (auto split: if_splits simp add: nth_append)
  moreover have "historyStep s' = int (length (historyRef s')) - 1"
    using r c by (auto split: if_splits)
  ultimately show ?thesis using pos by simp
qed

lemma sameSize_sym: "sameSize a b \<Longrightarrow> sameSize b a"
  by (simp add: sameSize_def)

lemma redo_after_undo:
  assumes "historyStep s1 = int (length (historyRef s1)) - 1" "0 < historyStep s1"
    "historyStep (after (undo api s1)) = historyStep s1 - 1"
    "historyRef s1 ! nat (historyStep s1) = mainCanvas s1"
  shows "mainCanvas (after (redo api (after (undo api s1)))) = mainCanvas s1"
proof -
  let ?s2 = "after (undo api s1)"
  have h: "historyRef ?s2 = historyRef s1" by simp
  have sz: "sameSize (mainCanvas s1) (mainCanvas ?s2)"
    by (rule sameSize_sym) (rule undo_size)
  let ?s3 = "?s2\<lparr>historyStep := historyStep ?s2 + 1\<rparr>"
  have st: "historyStep ?s2 + 1 = historyStep s1" using assms(3) by simp
  have "historyStep ?s2 < int (length (historyRef ?s2)) - 1"
    using assms(1,3) h by simp
  moreover have "0 \<le> historyStep ?s3" "nat (historyStep ?s3) < length (historyRef ?s3)"
    using assms(1,2) st by simp_all
  moreover have "historyRef ?s3 ! nat (historyStep ?s3) = mainCanvas s1"
    using assms(4) st by simp
  ultimately have "redo api ?s2 = applyHistoryItem api (mainCanvas s1) ?s3"
    unfolding redo_def Let_def by (simp only: if_True simp_thms)
  then show ?thesis
    using sz by (simp add: applyHistoryItem_def sameSize_def)
qed

section \<open>The reference rasteriser on small bitmaps\<close>

lemma parse_black [simp]: "parseColor ''#000000'' = black"
  by (simp add: parseColor_def hexDigit_def black_def)

lemma idx_lt: "x < w \<Longrightarrow> y < h \<Longrightarrow> y * w + x < w * (h::nat)"
proof -
  assume "x < w" "y < h"
  then have "y * w + x < Suc y * w" "Suc y \<le> h" by simp_all
  moreover from this have "Suc y * w \<le> h * w" by (intro mult_le_mono1)
  ultimately show ?thesis by (simp add: mult.commute)
qed

lemma pixel_at_solid: "x < w \<Longrightarrow> y < h \<Longrightarrow> pixel_at (solid w h p) x y = p"
  using idx_lt[of x w y h] by (simp add: pixel_at_def solid_def)

lemma sampleIndex_lt: "0 < n \<Longrightarrow> sampleIndex n c d0 dn < n"
  by (auto simp add: sampleIndex_def min_def)

text \<open>Drawing a one-colour bitmap over a one-colour canvas that the blend leaves as it is.\<close>

lemma ref_draw_unchanged:
  assumes "0 < sw" "0 < sh" "blend a p q = q"
  shows "drawImage refApi (solid sw sh p) dx dy dw dh a (solid w h q) = solid w h q"
proof -
  have "refDrawPixels (solid sw sh p) dx dy dw dh a (solid w h q) = replicate (w * h) q"
  proof (rule nth_equalityI)
    show "length (refDrawPixels (solid sw sh p) dx dy dw dh a (solid w h q)) =
          length (replicate (w * h) q)"
      by (simp add: refDrawPixels_def)
  next
    fix i
    assume "i < length (refDrawPixels (solid sw sh p) dx dy dw dh a (solid w h q))"
    then have i: "i < w * h" by (simp add: refDrawPixels_def)
    have px: "pixel_at (solid sw sh p) (sampleIndex sw c1 d0 d1) (sampleIndex sh c2 e0 d2) = p"
      for c1 d0 d1 c2 e0 d2
      using assms by (intro pixel_at_solid sampleIndex_lt)
    show "refDrawPixels (solid sw sh p) dx dy dw dh a (solid w h q) ! i = replicate (w * h) q ! i"
      using i assms px by (simp add: refDrawPixels_def Let_def solid_def[of w h q])
  qed
  then show ?thesis
    by (simp add: drawImage_def refApi_def solid_def)
qed

lemma ref_copy_white:
  "0 < w \<Longrightarrow> 0 < h \<Longrightarrow>
   drawImage0 refApi (solid w h white) 1 (solid w h transparent) = solid w h white"
proof -
  assume wh: "0 < w" "0 < h"
  have "refDrawPixels (solid w h white) 0 0 (of_nat w) (of_nat h) 1 (solid w h transparent) =
          replicate (w * h) white"
  proof (rule nth_equalityI)
    show "length (refDrawPixels (solid w h white) 0 0 (of_nat w) (of_nat h) 1 (solid w h transparent)) =
          length (replicate (w * h) white)"
      by (simp add: refDrawPixels_def)
  next
    fix i
    assume "i < length (refDrawPixels (solid w h white) 0 0 (of_nat w) (of_nat h) 1 (solid w h transparent))"
    then have i: "i < w * h" by (simp add: refDrawPixels_def)
    have half: "(of_nat k :: rat) + 1 / 2 < of_nat n" if "k < n" for k n :: nat
    proof -
      from that have "Suc k \<le> n" by simp
      then have "(of_nat (Suc k) :: rat) \<le> of_nat n" by (simp only: of_nat_le_iff)
      then show ?thesis by simp
    qed
    have "i mod w < w" using wh by simp
    then have cx: "(of_nat (i mod w) :: rat) + 1 / 2 < of_nat w" by (rule half)
    have "i div w < h" using i wh by (simp add: less_mult_imp_div_less mult.commute)
    then have cy: "(of_nat (i div w) :: rat) + 1 / 2 < of_nat h" by (rule half)
    have nn: "(0::rat) \<le> of_nat (i mod w) + 1 / 2" "(0::rat) \<le> of_nat (i div w) + 1 / 2"
      by simp_all
    have px: "pixel_at (solid w h white) (sampleIndex w c1 0 d1) (sampleIndex h c2 0 d2) = white"
      for c1 d1 c2 d2
      using wh by (intro pixel_at_solid sampleIndex_lt)
    show "refDrawPixels (solid w h white) 0 0 (of_nat w) (of_nat h) 1 (solid w h transparent) ! i =
          replicate (w * h) white ! i"
      using i cx cy nn wh px
      by (simp add: refDrawPixels_def Let_def solid_def[of w h transparent])
  qed
  then show ?thesis
    by (simp add: drawImage0_def drawImage_def refApi_def solid_def)
qed

lemma mount_ref:
  assumes "0 < toDim w" "0 < toDim h"
  shows "mount refApi w h tool0 =
     \<lparr>mainCanvas = solid (toDim w) (toDim h) white,
      tempCanvas = solid (toDim w) (toDim h) transparent,
      tCtx = mountedCtx, isDrawing = False, historyRef = [solid 300 150 white], historyStep = 0,
      tool = tool0\<rparr>"
proof -
  have a: "drawImage0 refApi (solid 300 150 white) 1 (solid 300 150 transparent) = solid 300 150 white"
    by (simp add: ref_copy_white)
  have b: "drawImage refApi (solid 300 150 white) 0 0 w h 1 (solid (toDim w) (toDim h) white) =
             solid (toDim w) (toDim h) white"
    by (rule ref_draw_unchanged) simp_all
  have c: "toDim w = 300 \<and> toDim h = 150" if "300 = w \<and> 150 = h"
    using that by (auto simp add: toDim_def)
  have i: "initCanvases (unmounted tool0) =
     \<lparr>mainCanvas = solid 300 150 white, tempCanvas = solid 300 150 transparent,
      tCtx = mountedCtx, isDrawing = False, historyRef = [solid 300 150 white], historyStep = 0,
      tool = tool0\<rparr>"
    by (simp add: initCanvases_eq) (simp add: unmounted_def mountedCtx_def)
  show ?thesis
    unfolding mount_def i using c
    by (auto simp add: handleResize_def toolEffect_def a b zeroSided_def Let_def tool0_def
        mountedCtx_def defaultCtx_def capOf_def joinOf_def)
qed

lemma exMounted_eq:
  "exMounted = \<lparr>mainCanvas = solid 2 1 white, tempCanvas = solid 2 1 transparent,
      tCtx = mountedCtx, isDrawing = False, historyRef = [solid 300 150 white], historyStep = 0,
      tool = tool0\<rparr>"
  using mount_ref[of 2 1] by (simp add: exMounted_def toDim_def)

lemma exMounted_pointerDown:
  "startDrawing refApi (pt 0 0) exMounted =
     exMounted\<lparr>isDrawing := True,
       tCtx := mountedCtx\<lparr>path := [(0, 0), (1 / 10, 0)], strokeStyle := ''#000000'', lineWidth := 3\<rparr>,
       tempCanvas := \<lparr>width = 2, height = 1, data = [black, transparent]\<rparr>\<rparr>"
  by (simp add: exMounted_eq startDrawing_def pt_def getCoordinates_def tool0_def Let_def
      stroke_def refApi_def refStrokePixels_def solid_def replicate_two two_pixels upt_two)

lemma draw_stroke_onto_white:
  "drawImage0 refApi \<lparr>width = 2, height = 1, data = [black, transparent]\<rparr> 1 (solid 2 1 white) = bw"
  by (simp add: ref_eval bw_def)

lemma snapshot_bw: "drawImage0 refApi bw 1 (solid 2 1 transparent) = bw"
  by (simp add: ref_eval bw_def)

lemma shrink_bw: "drawImage refApi bw 0 0 1 1 1 (solid 1 1 white) = solid 1 1 white"
  by (simp add: ref_eval bw_def)

lemma grow_white: "drawImage refApi (solid 1 1 white) 0 0 2 1 1 (solid 2 1 white) = solid 2 1 white"
  by (rule ref_draw_unchanged) simp_all

lemma bw_size [simp]: "width bw = 2" "height bw = 1"
  by (simp_all add: bw_def)

lemma exStroked_eq:
  "exStroked =
     \<lparr>mainCanvas = bw, tempCanvas = solid 2 1 transparent,
      tCtx = mountedCtx\<lparr>strokeStyle := ''#000000'', lineWidth := 3\<rparr>, isDrawing = False,
      historyRef = [solid 300 150 white, bw], historyStep = 1, tool = tool0\<rparr>"
  by (simp add: exStroked_def run_def exMounted_pointerDown stopDrawing_def Let_def)
     (simp add: exMounted_eq tool0_def draw_stroke_onto_white[unfolded One_nat_def]
        saveToHistory_def Let_def clearAll_def mountedCtx_def defaultCtx_def zeroSided_def)

lemma exDrawn_eq:
  "exDrawn = \<lparr>mainCanvas = solid 2 1 white, tempCanvas = solid 2 1 transparent,
      tCtx = mountedCtx, isDrawing = False, historyRef = [solid 300 150 white, bw], historyStep = 1,
      tool = tool0\<rparr>"
proof -
  let ?s2 = "\<lparr>mainCanvas = bw, tempCanvas = solid 2 1 transparent,
      tCtx = mountedCtx\<lparr>strokeStyle := ''#000000'', lineWidth := 3\<rparr>, isDrawing = False,
      historyRef = [solid 300 150 white, bw], historyStep = 1, tool = tool0\<rparr>"
  let ?s3 = "\<lparr>mainCanvas = solid 1 1 white, tempCanvas = solid 1 1 transparent,
      tCtx = mountedCtx, isDrawing = False,
      historyRef = [solid 300 150 white, bw], historyStep = 1, tool = tool0\<rparr>"
  let ?s4 = "\<lparr>mainCanvas = solid 2 1 white, tempCanvas = solid 2 1 transparent,
      tCtx = mountedCtx, isDrawing = False,
      historyRef = [solid 300 150 white, bw], historyStep = 1, tool = tool0\<rparr>"
  have a: "drawImage0 refApi (solid 1 1 white) 1 (solid 1 1 transparent) = solid 1 1 white"
    by (simp add: ref_copy_white)
  have r1: "handleResize refApi 1 1 ?s2 = Done ?s3"
    using snapshot_bw shrink_bw
    by (simp add: handleResize_def Let_def toDim_def tool0_def mountedCtx_def capOf_def joinOf_def
        zeroSided_def)
  have r2: "handleResize refApi 2 1 ?s3 = Done ?s4"
    using a grow_white
    by (simp add: handleResize_def Let_def toDim_def tool0_def mountedCtx_def capOf_def joinOf_def
        zeroSided_def)
  have "exDrawn = after (handleResize refApi 2 1 (after (handleResize refApi 1 1 exStroked)))"
    by (simp add: exDrawn_def run_def)
  then show ?thesis
    by (simp only: exStroked_eq r1 r2 after.simps)
qed

lemma bw_not_white: "bw \<noteq> solid 2 1 white"
  by (simp add: bw_def solid_def replicate_two black_def white_def)

lemma stroke_right:
  "stroke refApi (mountedCtx\<lparr>path := [(1, 0), (11 / 10, 0)], strokeStyle := ''#000000'', lineWidth := 3\<rparr>)
      (solid 2 1 transparent) = \<lparr>width = 2, height = 1, data = [transparent, black]\<rparr>"
  by (simp add: stroke_def refApi_def refStrokePixels_def solid_def replicate_two two_pixels upt_two)

lemma draw_right_onto_white:
  "drawImage0 refApi \<lparr>width = 2, height = 1, data = [transparent, black]\<rparr> 1 (solid 2 1 white)
     = \<lparr>width = 2, height = 1, data = [white, black]\<rparr>"
  by (simp add: ref_eval)

lemma draw_right_onto_bw:
  "drawImage0 refApi \<lparr>width = 2, height = 1, data = [transparent, black]\<rparr> 1 bw
     = solid 2 1 black"
  by (simp add: ref_eval bw_def)


section \<open>Undo and redo around a stroke\<close>

lemma exStroked_in_sync:
  "historyOk exStroked \<and> inSync refApi exStroked \<and> surfaceOk exStroked"
  by (simp add: exStroked_eq historyOk_def inSync_def applyHistoryItem_def surfaceOk_def
      zeroSided_def)

lemma exStroked_again:
  "strokeOnce refApi (pt 1 0, []) exStroked =
     Done (exStroked\<lparr>mainCanvas := solid 2 1 black,
             tCtx := mountedCtx\<lparr>strokeStyle := ''#000000'', lineWidth := 3\<rparr>,
             historyRef := [solid 300 150 white, bw, solid 2 1 black], historyStep := 2\<rparr>)"
  using stroke_right draw_right_onto_bw
  by (simp add: exStroked_eq strokeOnce_def penDown_def startDrawing_def stopDrawing_def
      pt_def getCoordinates_def tool0_def Let_def saveToHistory_def clearAll_def
      mountedCtx_def defaultCtx_def zeroSided_def)

text \<open>
  Claim C1, as amended. In every state that satisfies the history invariant (as all
  states reached from mounting do) and whose committed bitmap is in step with the
  history, \<^verbatim>\<open>undo\<close> right after a completed stroke gives back the committed bitmap
  from before the stroke, and a following \<^verbatim>\<open>redo\<close> gives the bitmap from after it.
  (A stroke completes exactly on canvases that have pixels, \<open>strokeOnce_completed\<close>.)
\<close>

theorem C1_undo_redo_in_sync:
  "historyOk s \<and> inSync api s \<and> completed (strokeOnce api st s) \<longrightarrow>
     mainCanvas (after (undo api (after (strokeOnce api st s)))) = mainCanvas s
   \<and> mainCanvas (after (redo api (after (undo api (after (strokeOnce api st s)))))) =
       mainCanvas (after (strokeOnce api st s))"
proof (intro impI)
  assume a: "historyOk s \<and> inSync api s \<and> completed (strokeOnce api st s)"
  let ?s1 = "after (strokeOnce api st s)"
  have ok: "historyOk s" using a by simp
  have sf: "surfaceOk s" using a by (simp add: strokeOnce_completed)
  have h: "(historyRef ?s1, historyStep ?s1) =
             recorded (historyRef s) (historyStep s) (mainCanvas ?s1)"
    using strokeOnce_history[OF sf, of api st] by blast
  have u: "mainCanvas (after (undo api ?s1)) =
           mainCanvas (after (applyHistoryItem api (historyRef s ! nat (historyStep s)) s))
     \<and> historyStep (after (undo api ?s1)) = historyStep ?s1 - 1
     \<and> historyRef ?s1 ! nat (historyStep ?s1) = mainCanvas ?s1
     \<and> historyStep ?s1 = int (length (historyRef ?s1)) - 1
     \<and> 0 < historyStep ?s1"
    by (rule undo_after_record[OF ok h strokeOnce_size])
  have "mainCanvas (after (undo api ?s1)) = mainCanvas s"
    using a u by (simp add: inSync_def)
  moreover have "mainCanvas (after (redo api (after (undo api ?s1)))) = mainCanvas ?s1"
  proof (rule redo_after_undo)
    show "historyStep ?s1 = int (length (historyRef ?s1)) - 1" using u by blast
    show "0 < historyStep ?s1" using u by blast
    show "historyStep (after (undo api ?s1)) = historyStep ?s1 - 1" using u by blast
    show "historyRef ?s1 ! nat (historyStep ?s1) = mainCanvas ?s1" using u by blast
  qed
  ultimately show "mainCanvas (after (undo api ?s1)) = mainCanvas s
     \<and> mainCanvas (after (redo api (after (undo api ?s1)))) = mainCanvas ?s1" by simp
qed

theorem C1_undo_redo_in_sync_witness:
  "(historyOk exStroked \<and> inSync refApi exStroked
      \<and> completed (strokeOnce refApi (pt 1 0, []) exStroked))
   \<and> mainCanvas exStroked = bw
   \<and> mainCanvas (after (strokeOnce refApi (pt 1 0, []) exStroked)) = solid 2 1 black
   \<and> mainCanvas (after (undo refApi (after (strokeOnce refApi (pt 1 0, []) exStroked)))) = bw
   \<and> mainCanvas (after (redo refApi (after (undo refApi
        (after (strokeOnce refApi (pt 1 0, []) exStroked)))))) = solid 2 1 black"
  using C1_undo_redo_in_sync [of exStroked refApi "(pt 1 0, [])"] exStroked_in_sync
  by (simp add: exStroked_again) (simp add: exStroked_eq)

text \<open>
  The claim as stated fails in a reachable state: after the dot at the left pixel the
  surface is shrunk and enlarged, which leaves it white while the history still holds
  the dot. Undoing a second, completed stroke then brings the dot back instead of the
  white surface that was there before that stroke.
\<close>

theorem C1_counterexample:
  "completed (strokeOnce refApi (pt 1 0, []) exDrawn)
   \<and> mainCanvas (after (undo refApi (after (strokeOnce refApi (pt 1 0, []) exDrawn)))) \<noteq>
       mainCanvas exDrawn"
proof -
  have s: "strokeOnce refApi (pt 1 0, []) exDrawn =
     Done (exDrawn\<lparr>mainCanvas := \<lparr>width = 2, height = 1, data = [white, black]\<rparr>,
               tCtx := mountedCtx\<lparr>strokeStyle := ''#000000'', lineWidth := 3\<rparr>,
               historyRef := [solid 300 150 white, bw, \<lparr>width = 2, height = 1, data = [white, black]\<rparr>],
               historyStep := 2\<rparr>)"
    using stroke_right draw_right_onto_white
    by (simp add: exDrawn_eq strokeOnce_def penDown_def startDrawing_def stopDrawing_def
        pt_def getCoordinates_def tool0_def Let_def saveToHistory_def clearAll_def
        mountedCtx_def defaultCtx_def zeroSided_def)
  then have "mainCanvas (after (undo refApi (after (strokeOnce refApi (pt 1 0, []) exDrawn)))) = bw"
    by (simp add: exDrawn_eq undo_def Let_def applyHistoryItem_def)
  then show ?thesis
    using bw_not_white s by (simp add: exDrawn_eq)
qed

section \<open>Clearing\<close>

text \<open>
  Claim C9, as amended. On a committed canvas that has pixels \<^verbatim>\<open>clearCanvas\<close> completes:
  it makes every committed pixel white, empties the scratch bitmap and records the
  white bitmap as the last entry. In such a state that also satisfies the history
  invariant and is in step with the history, a following \<^verbatim>\<open>undo\<close> gives back the
  committed bitmap from before the clear.
\<close>

theorem C9_clear_then_undo:
  "(\<not> zeroSided (mainCanvas s) \<longrightarrow>
      completed (clearCanvas s)
    \<and> mainCanvas (after (clearCanvas s)) = solid (width (mainCanvas s)) (height (mainCanvas s)) white
    \<and> set (data (mainCanvas (after (clearCanvas s)))) = {white}
    \<and> tempCanvas (after (clearCanvas s)) =
        solid (width (tempCanvas s)) (height (tempCanvas s)) transparent
    \<and> (historyRef (after (clearCanvas s)), historyStep (after (clearCanvas s))) =
        recorded (historyRef s) (historyStep s) (mainCanvas (after (clearCanvas s)))
    \<and> last (historyRef (after (clearCanvas s))) = mainCanvas (after (clearCanvas s))
    \<and> historyStep (after (clearCanvas s)) = int (length (historyRef (after (clearCanvas s)))) - 1)
   \<and> (\<not> zeroSided (mainCanvas s) \<and> historyOk s \<and> inSync api s \<longrightarrow>
        mainCanvas (after (undo api (after (clearCanvas s)))) = mainCanvas s)"
proof (intro conjI impI)
  assume nz: "\<not> zeroSided (mainCanvas s)"
  note e = clearCanvas_Done[OF nz]
  show "completed (clearCanvas s)" by (simp add: e)
  show m: "mainCanvas (after (clearCanvas s)) =
             solid (width (mainCanvas s)) (height (mainCanvas s)) white"
    by (simp add: e fillWhite_def)
  have "0 < width (mainCanvas s) * height (mainCanvas s)"
    using nz by (simp add: zeroSided_def)
  then show "set (data (mainCanvas (after (clearCanvas s)))) = {white}"
    unfolding m by (simp add: solid_def)
  show "tempCanvas (after (clearCanvas s)) =
          solid (width (tempCanvas s)) (height (tempCanvas s)) transparent"
    by (simp add: e clearAll_def)
  show "(historyRef (after (clearCanvas s)), historyStep (after (clearCanvas s))) =
        recorded (historyRef s) (historyStep s) (mainCanvas (after (clearCanvas s)))"
    by (simp add: e)
  show "last (historyRef (after (clearCanvas s))) = mainCanvas (after (clearCanvas s))"
    by (simp add: e recorded_last_entry)
  show "historyStep (after (clearCanvas s)) = int (length (historyRef (after (clearCanvas s)))) - 1"
    by (simp add: e recorded_last)
next
  assume a: "\<not> zeroSided (mainCanvas s) \<and> historyOk s \<and> inSync api s"
  then have ok: "historyOk s" and nz: "\<not> zeroSided (mainCanvas s)" by simp_all
  have h: "(historyRef (after (clearCanvas s)), historyStep (after (clearCanvas s))) =
        recorded (historyRef s) (historyStep s) (mainCanvas (after (clearCanvas s)))"
    using clearCanvas_history[OF nz] by blast
  have "mainCanvas (after (undo api (after (clearCanvas s)))) =
           mainCanvas (after (applyHistoryItem api (historyRef s ! nat (historyStep s)) s))
     \<and> historyStep (after (undo api (after (clearCanvas s)))) = historyStep (after (clearCanvas s)) - 1
     \<and> historyRef (after (clearCanvas s)) ! nat (historyStep (after (clearCanvas s))) =
         mainCanvas (after (clearCanvas s))
     \<and> historyStep (after (clearCanvas s)) = int (length (historyRef (after (clearCanvas s)))) - 1
     \<and> 0 < historyStep (after (clearCanvas s))"
    by (rule undo_after_record[OF ok h clearCanvas_size])
  then show "mainCanvas (after (undo api (after (clearCanvas s)))) = mainCanvas s"
    using a by (simp add: inSync_def)
qed

theorem C9_clear_then_undo_witness:
  "(\<not> zeroSided (mainCanvas exStroked) \<and> historyOk exStroked \<and> inSync refApi exStroked)
   \<and> mainCanvas exStroked = bw
   \<and> completed (clearCanvas exStroked)
   \<and> mainCanvas (after (clearCanvas exStroked)) = solid 2 1 white
   \<and> tempCanvas (after (clearCanvas exStroked)) = solid 2 1 transparent
   \<and> historyRef (after (clearCanvas exStroked)) = [solid 300 150 white, bw, solid 2 1 white]
   \<and> historyStep (after (clearCanvas exStroked)) = 2
   \<and> mainCanvas (after (undo refApi (after (clearCanvas exStroked)))) = bw"
  using C9_clear_then_undo [of exStroked refApi] exStroked_in_sync
  by (simp add: surfaceOk_def) (simp add: exStroked_eq recorded_def Let_def)

text \<open>
  The claim as stated fails in the reachable state \<open>exDrawn\<close>: the surface is white
  before the clear, and the undo after it restores the dot that the history holds.
\<close>

theorem C9_counterexample:
  "completed (clearCanvas exDrawn)
   \<and> mainCanvas (after (undo refApi (after (clearCanvas exDrawn)))) \<noteq> mainCanvas exDrawn"
proof -
  have "mainCanvas (after (undo refApi (after (clearCanvas exDrawn)))) = bw"
    by (simp add: exDrawn_eq clearCanvas_def Let_def saveToHistory_def undo_def
        applyHistoryItem_def zeroSided_def fillWhite_def)
  moreover have "completed (clearCanvas exDrawn)"
    by (simp add: clearCanvas_completed exDrawn_eq zeroSided_def)
  ultimately show ?thesis
    using bw_not_white by (simp add: exDrawn_eq)
qed

section \<open>Tool changes during a stroke\<close>







section \<open>Rounding to doubles\<close>

lemma pow2_powi: "pow2 k = 2 powi k"
  by (simp add: pow2_def power_int_def inverse_eq_divide power_one_over)

lemma pow2_pos: "0 < pow2 k"
  by (simp add: pow2_powi)

lemma pow2_shift: "pow2 (k - 52) = pow2 k / 2 ^ 52"
  by (simp add: pow2_powi power_int_diff)

lemma roundEven_error: "\<bar>of_int (roundEven y) - y\<bar> \<le> 1 / 2"
proof -
  have "of_int \<lfloor>y\<rfloor> \<le> y" "y < of_int \<lfloor>y\<rfloor> + 1" by linarith+
  then show ?thesis by (auto simp add: roundEven_def Let_def)
qed

lemma ilog2_lower: "0 < a \<Longrightarrow> pow2 (ilog2 a) \<le> a"
proof (cases "1 \<le> a")
  case True
  assume "0 < a"
  let ?n = "nat \<lfloor>a\<rfloor>"
  have n: "0 < ?n" using True by simp
  from floorlog_bounds[OF n, of 2] have b: "2 ^ (floorlog 2 ?n - 1) \<le> ?n" by simp
  have "0 < floorlog 2 ?n" using n by (simp add: floorlog_def)
  then have e: "ilog2 a = int (floorlog 2 ?n - 1)" using True by (simp add: ilog2_def)
  have "int (2 ^ (floorlog 2 ?n - 1)) \<le> int ?n" using b by (simp only: of_nat_le_iff)
  then have "(2::int) ^ (floorlog 2 ?n - 1) \<le> \<lfloor>a\<rfloor>" using n by simp
  then have "(of_int ((2::int) ^ (floorlog 2 ?n - 1)) :: rat) \<le> a"
    by (simp only: le_floor_iff)
  then have "(2::rat) ^ (floorlog 2 ?n - 1) \<le> a" by simp
  then show ?thesis unfolding e by (simp add: pow2_def)
next
  case False
  assume pos: "0 < a"
  let ?m = "nat \<lceil>1 / a\<rceil> - 1"
  let ?k = "floorlog 2 ?m"
  have "1 < 1 / a" using False pos by simp
  then have c: "2 \<le> \<lceil>1 / a\<rceil>" by linarith
  then have m: "0 < ?m" by simp
  from floorlog_bounds[OF m, of 2] have "?m < 2 ^ ?k" by simp
  then have "nat \<lceil>1 / a\<rceil> \<le> 2 ^ ?k" using m by arith
  then have "\<lceil>1 / a\<rceil> \<le> (2::int) ^ ?k" by simp
  then have "1 / a \<le> of_int ((2::int) ^ ?k)" by (simp only: ceiling_le_iff)
  then have "1 / a \<le> 2 ^ ?k" by simp
  then have le: "1 / 2 ^ ?k \<le> a" using pos by (simp add: field_simps)
  have k: "0 < ?k" using m by (simp add: floorlog_def)
  have "ilog2 a = - int ?k" using False by (simp add: ilog2_def)
  then show ?thesis using le k by (simp add: pow2_def)
qed

lemma toDouble_error: "\<bar>toDouble x - x\<bar> \<le> \<bar>x\<bar> / 2 ^ 53"
proof (cases "x = 0")
  case True
  then show ?thesis by (simp add: toDouble_def)
next
  case False
  define ulp where "ulp = pow2 (ilog2 \<bar>x\<bar> - 52)"
  define r where "r = (of_int (roundEven (\<bar>x\<bar> / ulp)) :: rat)"
  have u: "0 < ulp" by (simp add: ulp_def pow2_pos)
  have t: "toDouble x = sgn x * r * ulp"
    using False by (simp add: toDouble_def Let_def ulp_def r_def)
  have "\<bar>r - \<bar>x\<bar> / ulp\<bar> \<le> 1 / 2" unfolding r_def by (rule roundEven_error)
  then have "\<bar>r - \<bar>x\<bar> / ulp\<bar> * ulp \<le> 1 / 2 * ulp"
    using u by (intro mult_right_mono) simp_all
  moreover have "\<bar>r - \<bar>x\<bar> / ulp\<bar> * ulp = \<bar>r * ulp - \<bar>x\<bar>\<bar>"
  proof -
    have "r * ulp - \<bar>x\<bar> = (r - \<bar>x\<bar> / ulp) * ulp" using u by (simp add: field_simps)
    then have "\<bar>r * ulp - \<bar>x\<bar>\<bar> = \<bar>r - \<bar>x\<bar> / ulp\<bar> * \<bar>ulp\<bar>" by (simp only: abs_mult)
    then show ?thesis using u by simp
  qed
  ultimately have e1: "\<bar>r * ulp - \<bar>x\<bar>\<bar> \<le> ulp / 2" by simp
  have sx: "sgn x * \<bar>x\<bar> = x" by (rule sgn_mult_abs)
  have "toDouble x - x = sgn x * (r * ulp - \<bar>x\<bar>)"
    unfolding t right_diff_distrib sx by (simp add: mult.assoc)
  then have "\<bar>toDouble x - x\<bar> = \<bar>sgn x\<bar> * \<bar>r * ulp - \<bar>x\<bar>\<bar>"
    by (simp only: abs_mult)
  also have "\<dots> = \<bar>r * ulp - \<bar>x\<bar>\<bar>"
    using False by (simp add: abs_sgn_eq)
  finally have e2: "\<bar>toDouble x - x\<bar> \<le> ulp / 2" using e1 by simp
  have "pow2 (ilog2 \<bar>x\<bar>) \<le> \<bar>x\<bar>" using False by (intro ilog2_lower) simp
  then have "ulp \<le> \<bar>x\<bar> / 2 ^ 52" unfolding ulp_def pow2_shift by (simp add: divide_right_mono)
  then show ?thesis using e2 by simp
qed

lemma rounds_err: "roundsWithin api u \<Longrightarrow> \<bar>fl api x - x\<bar> \<le> u * \<bar>x\<bar>"
  by (simp add: roundsWithin_def)

lemma rounds_pos:
  assumes "roundsWithin api u" "0 < x"
  shows "(1 - u) * x \<le> fl api x" "fl api x \<le> (1 + u) * x" "0 < fl api x"
proof -
  have u: "0 \<le> u" "u < 1" using assms by (simp_all add: roundsWithin_def)
  have e: "\<bar>fl api x - x\<bar> \<le> u * x"
    using rounds_err[OF assms(1), of x] assms(2) by simp
  show a: "(1 - u) * x \<le> fl api x" using e by (simp add: algebra_simps abs_le_iff)
  show "fl api x \<le> (1 + u) * x" using e by (simp add: algebra_simps abs_le_iff)
  have "0 < (1 - u) * x" using u assms(2) by simp
  then show "0 < fl api x" using a by linarith
qed

lemma slack_le:
  assumes "0 \<le> u" "u < (1::rat)"
  shows "u * (2 + u) \<le> 2 * u / (1 - u)"
proof -
  have "u * (2 + u) * (1 - u) \<le> 2 * u"
  proof -
    have "u * (2 + u) * (1 - u) = 2 * u - u * (u + u * u)" by (simp add: algebra_simps)
    moreover have "0 \<le> u * (u + u * u)" using assms by simp
    ultimately show ?thesis by linarith
  qed
  then show ?thesis using assms by (simp add: pos_le_divide_eq)
qed

lemma rounds_half:
  assumes r: "roundsWithin api u"
  shows "\<bar>fl api (fl api d / 2) - d / 2\<bar> \<le> 2 * u / (1 - u) * \<bar>d\<bar> / 2"
proof -
  have u: "0 \<le> u" "u < 1" using r by (simp_all add: roundsWithin_def)
  define t where "t = fl api d"
  have 1: "\<bar>t - d\<bar> \<le> u * \<bar>d\<bar>" unfolding t_def by (rule rounds_err[OF r])
  have 2: "\<bar>fl api (t / 2) - t / 2\<bar> \<le> u * \<bar>t / 2\<bar>" by (rule rounds_err[OF r])
  have "\<bar>t\<bar> \<le> \<bar>d\<bar> + \<bar>t - d\<bar>" by linarith
  then have 3: "\<bar>t\<bar> \<le> (1 + u) * \<bar>d\<bar>" using 1 by (simp add: algebra_simps)
  have "u * \<bar>t\<bar> \<le> u * ((1 + u) * \<bar>d\<bar>)" using 3 u by (intro mult_left_mono) simp_all
  then have 4: "\<bar>fl api (t / 2) - t / 2\<bar> \<le> u * (1 + u) * \<bar>d\<bar> / 2" using 2 by simp
  have h: "\<bar>t / 2 - d / 2\<bar> = \<bar>t - d\<bar> / 2" by (simp add: diff_divide_distrib[symmetric])
  have "\<bar>fl api (t / 2) - d / 2\<bar> \<le> \<bar>fl api (t / 2) - t / 2\<bar> + \<bar>t / 2 - d / 2\<bar>" by linarith
  then have "\<bar>fl api (t / 2) - d / 2\<bar> \<le> \<bar>fl api (t / 2) - t / 2\<bar> + \<bar>t - d\<bar> / 2"
    unfolding h .
  also have "\<dots> \<le> u * (1 + u) * \<bar>d\<bar> / 2 + u * \<bar>d\<bar> / 2"
  proof (rule add_mono)
    show "\<bar>fl api (t / 2) - t / 2\<bar> \<le> u * (1 + u) * \<bar>d\<bar> / 2" by (rule 4)
    show "\<bar>t - d\<bar> / 2 \<le> u * \<bar>d\<bar> / 2" using 1 by (simp add: divide_right_mono)
  qed
  also have "\<dots> = u * (2 + u) * \<bar>d\<bar> / 2" by (simp add: algebra_simps)
  also have "\<dots> \<le> 2 * u / (1 - u) * \<bar>d\<bar> / 2"
    using slack_le[OF u] by (intro divide_right_mono mult_right_mono) simp_all
  finally show ?thesis unfolding t_def .
qed

lemma rounds_wide:
  assumes r: "roundsWithin api u" and q: "0 < q" and c: "0 < c"
  shows "\<bar>fl api (c / fl api q) * q - c\<bar> \<le> 2 * u / (1 - u) * c"
proof -
  have u: "0 \<le> u" "u < 1" using r by (simp_all add: roundsWithin_def)
  define p where "p = fl api q"
  have p: "(1 - u) * q \<le> p" "0 < p" and pq: "\<bar>p - q\<bar> \<le> u * q"
    using rounds_pos[OF r q] rounds_err[OF r, of q] q by (simp_all add: p_def)
  have cp: "0 < c / p" using c p by simp
  have 1: "\<bar>fl api (c / p) - c / p\<bar> \<le> u * (c / p)"
    using rounds_err[OF r, of "c / p"] c p(2) by simp
  have "fl api (c / p) * q - c = (fl api (c / p) - c / p) * q + (c / p) * (q - p)"
    using p by (simp add: field_simps)
  then have "\<bar>fl api (c / p) * q - c\<bar> \<le>
      \<bar>(fl api (c / p) - c / p) * q\<bar> + \<bar>(c / p) * (q - p)\<bar>"
    by (simp only: abs_triangle_ineq)
  also have "\<bar>(fl api (c / p) - c / p) * q\<bar> = \<bar>fl api (c / p) - c / p\<bar> * q"
    using q by (simp only: abs_mult abs_of_pos)
  also have "\<bar>(c / p) * (q - p)\<bar> = (c / p) * \<bar>q - p\<bar>"
    using cp by (simp only: abs_mult abs_of_pos)
  finally have "\<bar>fl api (c / p) * q - c\<bar> \<le> \<bar>fl api (c / p) - c / p\<bar> * q + (c / p) * \<bar>q - p\<bar>" .
  also have "\<dots> \<le> u * (c / p) * q + (c / p) * (u * q)"
  proof -
    have "\<bar>fl api (c / p) - c / p\<bar> * q \<le> u * (c / p) * q"
      using 1 q by (intro mult_right_mono) simp_all
    moreover have "(c / p) * \<bar>q - p\<bar> \<le> (c / p) * (u * q)"
      using pq cp by (intro mult_left_mono) (simp_all add: abs_minus_commute)
    ultimately show ?thesis by linarith
  qed
  also have "\<dots> = 2 * u * c * (q / p)" by (simp add: algebra_simps)
  also have "\<dots> \<le> 2 * u * c * (1 / (1 - u))"
  proof -
    have "q / p \<le> 1 / (1 - u)"
      using p u q by (simp add: field_simps)
    then show ?thesis using u c by (intro mult_left_mono) simp_all
  qed
  finally show ?thesis unfolding p_def by (simp add: algebra_simps)
qed

lemma rounds_tall:
  assumes r: "roundsWithin api u" and q: "0 < q" and c: "0 < c"
  shows "\<bar>fl api (c * fl api q) - c * q\<bar> \<le> 2 * u / (1 - u) * (c * q)"
proof -
  have u: "0 \<le> u" "u < 1" using r by (simp_all add: roundsWithin_def)
  define p where "p = fl api q"
  have p: "p \<le> (1 + u) * q" "0 < p" and pq: "\<bar>p - q\<bar> \<le> u * q"
    using rounds_pos[OF r q] rounds_err[OF r, of q] q by (simp_all add: p_def)
  have cp: "0 < c * p" using c p by simp
  have 1: "\<bar>fl api (c * p) - c * p\<bar> \<le> u * (c * p)"
    using rounds_err[OF r, of "c * p"] cp by simp
  have "u * (c * p) \<le> u * (c * ((1 + u) * q))"
    using p u c by (intro mult_left_mono) simp_all
  then have 2: "\<bar>fl api (c * p) - c * p\<bar> \<le> u * (1 + u) * (c * q)"
    using 1 by (simp add: algebra_simps)
  have "\<bar>c * p - c * q\<bar> = c * \<bar>p - q\<bar>"
    using c by (simp add: right_diff_distrib[symmetric] abs_mult)
  also have "\<dots> \<le> c * (u * q)" using pq c by (intro mult_left_mono) simp_all
  finally have 3: "\<bar>c * p - c * q\<bar> \<le> u * (c * q)" by (simp add: algebra_simps)
  have "\<bar>fl api (c * p) - c * q\<bar> \<le> \<bar>fl api (c * p) - c * p\<bar> + \<bar>c * p - c * q\<bar>" by linarith
  also have "\<dots> \<le> u * (1 + u) * (c * q) + u * (c * q)" using 2 3 by (rule add_mono)
  also have "\<dots> = u * (2 + u) * (c * q)" by (simp add: algebra_simps)
  also have "\<dots> \<le> 2 * u / (1 - u) * (c * q)"
    using slack_le[OF u] c q by (intro mult_right_mono) simp_all
  finally show ?thesis unfolding p_def .
qed

lemma ceiling_rat_numeral_div [simp]:
  "\<lceil>numeral a / numeral b :: rat\<rceil> = - (- numeral a div numeral b)"
  by (metis ceiling_divide_eq_div of_int_numeral)

lemmas dbl_eval = toDouble_def ilog2_def compute_floorlog pow2_def roundEven_def Let_def

lemma toDouble_rounds: "fl api = toDouble \<Longrightarrow> roundsWithin api (1 / 2 ^ 53)"
  using toDouble_error by (simp add: roundsWithin_def)

lemma aspectFit_rounded:
  assumes r: "roundsWithin api u" and pos: "0 < cw" "0 < ch" "0 < iw" "0 < ih"
  shows "case aspectFit api cw ch iw ih of (ox, oy, dw, dh) \<Rightarrow>
      0 < dw \<and> 0 < dh
    \<and> ((ox = 0 \<and> dw = of_nat cw
          \<and> \<bar>dh * of_nat iw - dw * of_nat ih\<bar> \<le> 2 * u / (1 - u) * (dw * of_nat ih)
          \<and> \<bar>oy - (of_nat ch - dh) / 2\<bar> \<le> 2 * u / (1 - u) * \<bar>of_nat ch - dh\<bar> / 2)
       \<or> (oy = 0 \<and> dh = of_nat ch
          \<and> \<bar>dw * of_nat ih - dh * of_nat iw\<bar> \<le> 2 * u / (1 - u) * (dh * of_nat iw)
          \<and> \<bar>ox - (of_nat cw - dw) / 2\<bar> \<le> 2 * u / (1 - u) * \<bar>of_nat cw - dw\<bar> / 2))"
proof -
  define q :: rat where "q = of_nat iw / of_nat ih"
  define W :: rat where "W = of_nat cw"
  define H :: rat where "H = of_nat ch"
  define I :: rat where "I = of_nat ih"
  have p: "0 < q" "0 < W" "0 < H" "0 < I" using pos by (simp_all add: q_def W_def H_def I_def)
  have iw: "of_nat iw = q * I" using pos by (simp add: q_def I_def)
  have fq: "0 < fl api q" by (rule rounds_pos(3)[OF r p(1)])
  show ?thesis
  proof (cases "fl api q > fl api (W / H)")
    case True
    define dh where "dh = fl api (W / fl api q)"
    have f: "aspectFit api cw ch iw ih = (0, fl api (fl api (H - dh) / 2), W, dh)"
      using True by (simp add: aspectFit_def Let_def q_def W_def H_def dh_def)
    have "0 < W / fl api q" using p fq by simp
    then have d: "0 < dh" unfolding dh_def by (rule rounds_pos(3)[OF r])
    have "\<bar>dh * q - W\<bar> \<le> 2 * u / (1 - u) * W"
      unfolding dh_def by (rule rounds_wide[OF r p(1) p(2)])
    then have "\<bar>dh * q - W\<bar> * I \<le> 2 * u / (1 - u) * W * I"
      using p by (intro mult_right_mono) simp_all
    moreover have "\<bar>dh * q - W\<bar> * I = \<bar>dh * (q * I) - W * I\<bar>"
    proof -
      have "dh * (q * I) - W * I = (dh * q - W) * I" by (simp add: algebra_simps)
      then have "\<bar>dh * (q * I) - W * I\<bar> = \<bar>dh * q - W\<bar> * \<bar>I\<bar>" by (simp only: abs_mult)
      then show ?thesis using p by simp
    qed
    ultimately have a: "\<bar>dh * (q * I) - W * I\<bar> \<le> 2 * u / (1 - u) * (W * I)"
      by (simp add: mult.assoc)
    have c: "\<bar>fl api (fl api (H - dh) / 2) - (H - dh) / 2\<bar> \<le> 2 * u / (1 - u) * \<bar>H - dh\<bar> / 2"
      by (rule rounds_half[OF r])
    show ?thesis
      unfolding f using a c d p by (simp add: iw W_def[symmetric] H_def[symmetric] I_def[symmetric])
  next
    case False
    define dw where "dw = fl api (H * fl api q)"
    have f: "aspectFit api cw ch iw ih = (fl api (fl api (W - dw) / 2), 0, dw, H)"
      using False by (simp add: aspectFit_def Let_def q_def W_def H_def dw_def)
    have "0 < H * fl api q" using p fq by simp
    then have d: "0 < dw" unfolding dw_def by (rule rounds_pos(3)[OF r])
    have "\<bar>dw - H * q\<bar> \<le> 2 * u / (1 - u) * (H * q)"
      unfolding dw_def by (rule rounds_tall[OF r p(1) p(3)])
    then have "\<bar>dw - H * q\<bar> * I \<le> 2 * u / (1 - u) * (H * q) * I"
      using p by (intro mult_right_mono) simp_all
    moreover have "\<bar>dw - H * q\<bar> * I = \<bar>dw * I - H * (q * I)\<bar>"
    proof -
      have "dw * I - H * (q * I) = (dw - H * q) * I" by (simp add: algebra_simps)
      then have "\<bar>dw * I - H * (q * I)\<bar> = \<bar>dw - H * q\<bar> * \<bar>I\<bar>" by (simp only: abs_mult)
      then show ?thesis using p by simp
    qed
    ultimately have a: "\<bar>dw * I - H * (q * I)\<bar> \<le> 2 * u / (1 - u) * (H * (q * I))"
      by (simp add: mult.assoc)
    have c: "\<bar>fl api (fl api (W - dw) / 2) - (W - dw) / 2\<bar> \<le> 2 * u / (1 - u) * \<bar>W - dw\<bar> / 2"
      by (rule rounds_half[OF r])
    show ?thesis
      unfolding f using a c d p by (simp add: iw W_def[symmetric] H_def[symmetric] I_def[symmetric])
  qed
qed

lemma aspectFit_scenario:
  "fl api = toDouble \<Longrightarrow> aspectFit api 100 100 200 100 = (0, 25, 100, 50)"
  by (simp add: aspectFit_def dbl_eval)

lemma aspectFit_thin:
  "aspectFit refApi 100 100 3 1 =
     (0, 2345624805922133 / 70368744177664, 100, 4691249611844267 / 140737488355328)"
  by (simp add: aspectFit_def refApi_def dbl_eval)

lemma aspectFit_tall: "aspectFit refApi 2 3 2 1 = (0, 1, 2, 1)"
  by (simp add: aspectFit_def refApi_def dbl_eval)

end
